theory Spec2Isabelle
  imports Main "HOL-Library.Word"
begin

unbundle bit_operations_syntax

section \<open>Data model\<close>

text \<open>
  The repository holds two implementations of the same interface (fake6502.h):
  \<^item> \<^verbatim>\<open>fake6502_old.c\<close>, a self-contained simplified core (registers in a
    static \<^verbatim>\<open>cpu_state_t cpu\<close>, six decoded opcodes);
  \<^item> \<^verbatim>\<open>fake6502.c\<close>, a wrapper around the core of \<^verbatim>\<open>fake6502_improved.h\<close>,
    which keeps its registers in static variables reached through accessors.
  Both share the interrupt latches, the memory callbacks and the functions
  \<^verbatim>\<open>read6502\<close>, \<^verbatim>\<open>write6502\<close>, \<^verbatim>\<open>cpu_trigger_irq\<close>, \<^verbatim>\<open>cpu_trigger_nmi\<close>,
  \<^verbatim>\<open>cpu_clear_irq\<close>, word for word. The machine state below is therefore
  polymorphic in the register file \<open>'r\<close>. Functions that exist in both files
  with different bodies keep the source name for the simplified core and carry
  the suffix \<open>_w\<close> for the wrapper.
\<close>

type_synonym u8 = "8 word"
type_synonym u16 = "16 word"
type_synonym u32 = "32 word"
type_synonym u64 = "64 word"

text \<open>\<^verbatim>\<open>cpu_state_t\<close> of fake6502.h.\<close>

record cpu_state_t =
  pc :: u16
  sp :: u8
  a :: u8
  x :: u8
  y :: u8
  status :: u8
  cycles :: u64

text \<open>Status flag bits of fake6502.h.\<close>

definition FLAG_CARRY :: u8 where "FLAG_CARRY = 0x01"
definition FLAG_ZERO :: u8 where "FLAG_ZERO = 0x02"
definition FLAG_INTERRUPT :: u8 where "FLAG_INTERRUPT = 0x04"
definition FLAG_DECIMAL :: u8 where "FLAG_DECIMAL = 0x08"
definition FLAG_BREAK :: u8 where "FLAG_BREAK = 0x10"
definition FLAG_CONSTANT :: u8 where "FLAG_CONSTANT = 0x20"
definition FLAG_OVERFLOW :: u8 where "FLAG_OVERFLOW = 0x40"
definition FLAG_SIGN :: u8 where "FLAG_SIGN = 0x80"

text \<open>
  The memory callbacks act on the host's world \<open>'b\<close>, which the core never sees:
  a read may change it (memory-mapped I/O), so \<^verbatim>\<open>read_func_t\<close> returns the byte
  and the new world. A \<^verbatim>\<open>NULL\<close> callback is \<open>None\<close>.
\<close>

type_synonym 'b read_func_t = "'b \<Rightarrow> u16 \<Rightarrow> u8 \<times> 'b"
type_synonym 'b write_func_t = "'b \<Rightarrow> u16 \<Rightarrow> u8 \<Rightarrow> 'b"

text \<open>
  The file-level statics: the register file, the two latches (C \<^verbatim>\<open>int\<close>s,
  tested for being non-zero), the two callbacks; and the host's world.
\<close>

record ('r, 'b) machine =
  cpu :: 'r
  irq_pending :: int
  nmi_pending :: int
  memory_read :: "'b read_func_t option"
  memory_write :: "'b write_func_t option"
  host :: 'b

section \<open>Bus access\<close>

definition default_read :: "u16 \<Rightarrow> u8" where
  "default_read address = 0xFF"

definition default_write :: "'b \<Rightarrow> u16 \<Rightarrow> u8 \<Rightarrow> 'b" where
  "default_write h address val = h"

definition read6502 :: "('r, 'b) machine \<Rightarrow> u16 \<Rightarrow> u8 \<times> ('r, 'b) machine" where
  "read6502 m address =
     (case memory_read m of
        Some f \<Rightarrow> (case f (host m) address of (v, h) \<Rightarrow> (v, m\<lparr>host := h\<rparr>))
      | None \<Rightarrow> (default_read address, m))"

definition write6502 :: "('r, 'b) machine \<Rightarrow> u16 \<Rightarrow> u8 \<Rightarrow> ('r, 'b) machine" where
  "write6502 m address val =
     (case memory_write m of
        Some f \<Rightarrow> m\<lparr>host := f (host m) address val\<rparr>
      | None \<Rightarrow> m\<lparr>host := default_write (host m) address val\<rparr>)"

text \<open>
  \<^verbatim>\<open>read6502(address) | (read6502(address + 1) << 8)\<close>: the address is a
  \<^verbatim>\<open>uint16_t\<close> parameter, so \<^verbatim>\<open>address + 1\<close> wraps at 0xFFFF. C does not fix
  the order of the two calls; the model takes them left to right, low byte
  first, which is the order of the hardware's bus cycles. The order is
  observable only by a host whose reads have effects: the bytes read from a
  host whose reads change nothing do not depend on it.
\<close>

definition word_of_bytes :: "u8 \<Rightarrow> u8 \<Rightarrow> u16" where
  "word_of_bytes lo hi = ucast lo OR push_bit 8 (ucast hi)"

definition read6502_word :: "('r, 'b) machine \<Rightarrow> u16 \<Rightarrow> u16 \<times> ('r, 'b) machine" where
  "read6502_word m address =
     (case read6502 m address of (lo, m1) \<Rightarrow>
      case read6502 m1 (address + 1) of (hi, m2) \<Rightarrow>
        (word_of_bytes lo hi, m2))"

definition push6502 :: "(cpu_state_t, 'b) machine \<Rightarrow> u8 \<Rightarrow> (cpu_state_t, 'b) machine" where
  "push6502 m val =
     (let m1 = write6502 m (0x0100 + ucast (sp (cpu m))) val
      in m1\<lparr>cpu := (cpu m1)\<lparr>sp := sp (cpu m1) - 1\<rparr>\<rparr>)"

definition pull6502 :: "(cpu_state_t, 'b) machine \<Rightarrow> u8 \<times> (cpu_state_t, 'b) machine" where
  "pull6502 m =
     (let m1 = m\<lparr>cpu := (cpu m)\<lparr>sp := sp (cpu m) + 1\<rparr>\<rparr>
      in read6502 m1 (0x0100 + ucast (sp (cpu m1))))"

section \<open>The simplified core (fake6502\_old.c)\<close>

definition cpu_reset :: "(cpu_state_t, 'b) machine \<Rightarrow> (cpu_state_t, 'b) machine" where
  "cpu_reset m =
     (let m1 = m\<lparr>cpu := \<lparr>pc = 0, sp = 0, a = 0, x = 0, y = 0, status = 0, cycles = 0\<rparr>\<rparr>;
          m2 = m1\<lparr>cpu := (cpu m1)\<lparr>sp := 0xFF\<rparr>\<rparr>;
          m3 = m2\<lparr>cpu := (cpu m2)\<lparr>status := FLAG_CONSTANT OR FLAG_INTERRUPT\<rparr>\<rparr>
      in case read6502_word m3 0xFFFC of (w, m4) \<Rightarrow>
         (let m5 = m4\<lparr>cpu := (cpu m4)\<lparr>pc := w\<rparr>\<rparr>;
              m6 = m5\<lparr>cpu := (cpu m5)\<lparr>cycles := 0\<rparr>\<rparr>
          in m6\<lparr>irq_pending := 0, nmi_pending := 0\<rparr>))"

text \<open>
  The \<^verbatim>\<open>switch (opcode)\<close> of \<^verbatim>\<open>cpu_step\<close>, in the order of its cases: the value
  it leaves in \<^verbatim>\<open>cycles\<close> and the new state. It runs after the opcode fetch has
  incremented the program counter.
\<close>

definition execute :: "u8 \<Rightarrow> (cpu_state_t, 'b) machine \<Rightarrow> u8 \<times> (cpu_state_t, 'b) machine" where
  "execute opcode m =
     (if opcode = 0x00 then
        (let m1 = m\<lparr>cpu := (cpu m)\<lparr>pc := pc (cpu m) + 1\<rparr>\<rparr>;
             m2 = push6502 m1 (ucast (drop_bit 8 (pc (cpu m1)) AND 0xFF));
             m3 = push6502 m2 (ucast (pc (cpu m2) AND 0xFF));
             m4 = push6502 m3 (status (cpu m3) OR FLAG_BREAK);
             m5 = m4\<lparr>cpu := (cpu m4)\<lparr>status := status (cpu m4) OR FLAG_INTERRUPT\<rparr>\<rparr>
         in case read6502_word m5 0xFFFE of (w, m6) \<Rightarrow>
              (7, m6\<lparr>cpu := (cpu m6)\<lparr>pc := w\<rparr>\<rparr>))
      else if opcode = 0x4C then
        (case read6502_word m (pc (cpu m)) of (w, m1) \<Rightarrow>
           (3, m1\<lparr>cpu := (cpu m1)\<lparr>pc := w\<rparr>\<rparr>))
      else if opcode = 0x6C then
        (case read6502_word m (pc (cpu m)) of (addr, m1) \<Rightarrow>
           if addr AND 0xFF = 0xFF then
             (case read6502 m1 addr of (lo, m2) \<Rightarrow>
              case read6502 m2 (addr AND 0xFF00) of (hi, m3) \<Rightarrow>
                (5, m3\<lparr>cpu := (cpu m3)\<lparr>pc := word_of_bytes lo hi\<rparr>\<rparr>))
           else
             (case read6502_word m1 addr of (w, m2) \<Rightarrow>
                (5, m2\<lparr>cpu := (cpu m2)\<lparr>pc := w\<rparr>\<rparr>)))
      else if opcode = 0xA9 then
        (let m1 = m\<lparr>cpu := (cpu m)\<lparr>pc := pc (cpu m) + 1\<rparr>\<rparr>
         in case read6502 m1 (pc (cpu m)) of (v, m2) \<Rightarrow>
           (let m3 = m2\<lparr>cpu := (cpu m2)\<lparr>a := v\<rparr>\<rparr>;
                m4 = m3\<lparr>cpu := (cpu m3)\<lparr>status := status (cpu m3) AND NOT (FLAG_ZERO OR FLAG_SIGN)\<rparr>\<rparr>;
                m5 = (if a (cpu m4) = 0
                      then m4\<lparr>cpu := (cpu m4)\<lparr>status := status (cpu m4) OR FLAG_ZERO\<rparr>\<rparr>
                      else m4);
                m6 = (if a (cpu m5) AND 0x80 \<noteq> 0
                      then m5\<lparr>cpu := (cpu m5)\<lparr>status := status (cpu m5) OR FLAG_SIGN\<rparr>\<rparr>
                      else m5)
            in (2, m6)))
      else if opcode = 0xEA then (2, m)
      else if opcode = 0x40 then
        (case pull6502 m of (st, m1) \<Rightarrow>
         let m2 = m1\<lparr>cpu := (cpu m1)\<lparr>status := st\<rparr>\<rparr>
         in case pull6502 m2 of (lo, m3) \<Rightarrow>
         let m4 = m3\<lparr>cpu := (cpu m3)\<lparr>pc := ucast lo\<rparr>\<rparr>
         in case pull6502 m4 of (hi, m5) \<Rightarrow>
           (6, m5\<lparr>cpu := (cpu m5)\<lparr>pc := pc (cpu m5) OR push_bit 8 (ucast hi)\<rparr>\<rparr>))
      else (2, m))"

definition cpu_step :: "(cpu_state_t, 'b) machine \<Rightarrow> u8 \<times> (cpu_state_t, 'b) machine" where
  "cpu_step m =
     (if nmi_pending m \<noteq> 0 then
        (let m1 = push6502 m (ucast (drop_bit 8 (pc (cpu m)) AND 0xFF));
             m2 = push6502 m1 (ucast (pc (cpu m1) AND 0xFF));
             m3 = push6502 m2 (status (cpu m2));
             m4 = m3\<lparr>cpu := (cpu m3)\<lparr>status := status (cpu m3) OR FLAG_INTERRUPT\<rparr>\<rparr>
         in case read6502_word m4 0xFFFA of (w, m5) \<Rightarrow>
           (let m6 = m5\<lparr>cpu := (cpu m5)\<lparr>pc := w\<rparr>\<rparr>;
                m7 = m6\<lparr>nmi_pending := 0\<rparr>
            in (7, m7\<lparr>cpu := (cpu m7)\<lparr>cycles := cycles (cpu m7) + 7\<rparr>\<rparr>)))
      else if irq_pending m \<noteq> 0 \<and> status (cpu m) AND FLAG_INTERRUPT = 0 then
        (let m1 = push6502 m (ucast (drop_bit 8 (pc (cpu m)) AND 0xFF));
             m2 = push6502 m1 (ucast (pc (cpu m1) AND 0xFF));
             m3 = push6502 m2 (status (cpu m2));
             m4 = m3\<lparr>cpu := (cpu m3)\<lparr>status := status (cpu m3) OR FLAG_INTERRUPT\<rparr>\<rparr>
         in case read6502_word m4 0xFFFE of (w, m5) \<Rightarrow>
           (let m6 = m5\<lparr>cpu := (cpu m5)\<lparr>pc := w\<rparr>\<rparr>;
                m7 = m6\<lparr>irq_pending := 0\<rparr>
            in (7, m7\<lparr>cpu := (cpu m7)\<lparr>cycles := cycles (cpu m7) + 7\<rparr>\<rparr>)))
      else
        (case read6502 m (pc (cpu m)) of (opcode, m1) \<Rightarrow>
         let m2 = m1\<lparr>cpu := (cpu m1)\<lparr>pc := pc (cpu m1) + 1\<rparr>\<rparr>
         in case execute opcode m2 of (cyc, m3) \<Rightarrow>
           (cyc, m3\<lparr>cpu := (cpu m3)\<lparr>cycles := cycles (cpu m3) + ucast cyc\<rparr>\<rparr>)))"

text \<open>
  The snapshot functions take a pointer: \<open>None\<close> is \<^verbatim>\<open>NULL\<close>, \<open>Some s\<close> points to the
  struct \<open>s\<close>. \<^verbatim>\<open>cpu_get_state\<close> returns what the pointer points to after the call.
\<close>

definition cpu_get_state :: "(cpu_state_t, 'b) machine \<Rightarrow> cpu_state_t option \<Rightarrow> cpu_state_t option" where
  "cpu_get_state m state = (case state of None \<Rightarrow> None | Some s \<Rightarrow> Some (cpu m))"

definition cpu_set_state :: "(cpu_state_t, 'b) machine \<Rightarrow> cpu_state_t option \<Rightarrow> (cpu_state_t, 'b) machine" where
  "cpu_set_state m state = (case state of None \<Rightarrow> m | Some s \<Rightarrow> m\<lparr>cpu := s\<rparr>)"

section \<open>Functions common to both files\<close>

definition cpu_set_memory_callbacks ::
  "('r, 'b) machine \<Rightarrow> 'b read_func_t option \<Rightarrow> 'b write_func_t option \<Rightarrow> ('r, 'b) machine" where
  "cpu_set_memory_callbacks m read_func write_func =
     m\<lparr>memory_read := read_func, memory_write := write_func\<rparr>"

definition cpu_trigger_irq :: "('r, 'b) machine \<Rightarrow> ('r, 'b) machine" where
  "cpu_trigger_irq m = m\<lparr>irq_pending := 1\<rparr>"

definition cpu_trigger_nmi :: "('r, 'b) machine \<Rightarrow> ('r, 'b) machine" where
  "cpu_trigger_nmi m = m\<lparr>nmi_pending := 1\<rparr>"

definition cpu_clear_irq :: "('r, 'b) machine \<Rightarrow> ('r, 'b) machine" where
  "cpu_clear_irq m = m\<lparr>irq_pending := 0\<rparr>"

definition cpu_is_irq_pending :: "('r, 'b) machine \<Rightarrow> int" where
  "cpu_is_irq_pending m = irq_pending m"

definition cpu_is_nmi_pending :: "('r, 'b) machine \<Rightarrow> int" where
  "cpu_is_nmi_pending m = nmi_pending m"

section \<open>The wrapper (fake6502.c)\<close>

text \<open>
  Modelled from the spec: the register file of \<^verbatim>\<open>fake6502_improved.h\<close> and its
  per-register accessors, which are not among the sources. The spec (4.1) says
  the state "exposes get/set per-register accessors": a setter stores its
  argument in its register and touches nothing else, a getter returns the
  register. The argument and result types are the prototypes that fake6502.c
  itself declares (lines 93 to 107); in particular the cycle counter travels
  as a \<^verbatim>\<open>uint32_t\<close>.
\<close>

record core6502 =
  pc_6502 :: u16
  sp_6502 :: u8
  a_6502 :: u8
  x_6502 :: u8
  y_6502 :: u8
  status_6502 :: u8
  cycles_6502 :: u32

definition get_pc_6502 :: "core6502 \<Rightarrow> u16" where "get_pc_6502 c = pc_6502 c"
definition get_sp_6502 :: "core6502 \<Rightarrow> u8" where "get_sp_6502 c = sp_6502 c"
definition get_a_6502 :: "core6502 \<Rightarrow> u8" where "get_a_6502 c = a_6502 c"
definition get_x_6502 :: "core6502 \<Rightarrow> u8" where "get_x_6502 c = x_6502 c"
definition get_y_6502 :: "core6502 \<Rightarrow> u8" where "get_y_6502 c = y_6502 c"
definition get_status_6502 :: "core6502 \<Rightarrow> u8" where "get_status_6502 c = status_6502 c"
definition get_cycles_6502 :: "core6502 \<Rightarrow> u32" where "get_cycles_6502 c = cycles_6502 c"

definition set_pc_6502 :: "core6502 \<Rightarrow> u16 \<Rightarrow> core6502" where
  "set_pc_6502 c v = c\<lparr>pc_6502 := v\<rparr>"
definition set_sp_6502 :: "core6502 \<Rightarrow> u8 \<Rightarrow> core6502" where
  "set_sp_6502 c v = c\<lparr>sp_6502 := v\<rparr>"
definition set_a_6502 :: "core6502 \<Rightarrow> u8 \<Rightarrow> core6502" where
  "set_a_6502 c v = c\<lparr>a_6502 := v\<rparr>"
definition set_x_6502 :: "core6502 \<Rightarrow> u8 \<Rightarrow> core6502" where
  "set_x_6502 c v = c\<lparr>x_6502 := v\<rparr>"
definition set_y_6502 :: "core6502 \<Rightarrow> u8 \<Rightarrow> core6502" where
  "set_y_6502 c v = c\<lparr>y_6502 := v\<rparr>"
definition set_status_6502 :: "core6502 \<Rightarrow> u8 \<Rightarrow> core6502" where
  "set_status_6502 c v = c\<lparr>status_6502 := v\<rparr>"
definition set_cycles_6502 :: "core6502 \<Rightarrow> u32 \<Rightarrow> core6502" where
  "set_cycles_6502 c v = c\<lparr>cycles_6502 := v\<rparr>"

text \<open>
  \<^verbatim>\<open>cpu_reset\<close> of fake6502.c. Its comment reads "Initialize CPU state without
  reading from memory. We'll set PC manually after this".
\<close>

definition cpu_reset_w :: "(core6502, 'b) machine \<Rightarrow> (core6502, 'b) machine" where
  "cpu_reset_w m =
     (let c1 = set_pc_6502 (cpu m) 0x0000;
          c2 = set_sp_6502 c1 0xFD;
          c3 = set_a_6502 c2 0;
          c4 = set_x_6502 c3 0;
          c5 = set_y_6502 c4 0;
          c6 = set_status_6502 c5 (0x20 OR 0x04);
          c7 = set_cycles_6502 c6 0
      in m\<lparr>cpu := c7, irq_pending := 0, nmi_pending := 0\<rparr>)"

text \<open>
  \<^verbatim>\<open>state->cycles\<close> is a \<^verbatim>\<open>uint64_t\<close>: the call \<^verbatim>\<open>set_cycles_6502(state->cycles)\<close>
  converts it to the parameter's \<^verbatim>\<open>uint32_t\<close>, and the result of
  \<^verbatim>\<open>get_cycles_6502()\<close> is widened back.
\<close>

definition cpu_get_state_w :: "(core6502, 'b) machine \<Rightarrow> cpu_state_t option \<Rightarrow> cpu_state_t option" where
  "cpu_get_state_w m state =
     (case state of
        None \<Rightarrow> None
      | Some s \<Rightarrow>
          Some (s\<lparr>pc := get_pc_6502 (cpu m),
                  sp := get_sp_6502 (cpu m),
                  a := get_a_6502 (cpu m),
                  x := get_x_6502 (cpu m),
                  y := get_y_6502 (cpu m),
                  status := get_status_6502 (cpu m),
                  cycles := ucast (get_cycles_6502 (cpu m))\<rparr>))"

definition cpu_set_state_w :: "(core6502, 'b) machine \<Rightarrow> cpu_state_t option \<Rightarrow> (core6502, 'b) machine" where
  "cpu_set_state_w m state =
     (case state of
        None \<Rightarrow> m
      | Some s \<Rightarrow>
          (let c1 = set_pc_6502 (cpu m) (pc s);
               c2 = set_sp_6502 c1 (sp s);
               c3 = set_a_6502 c2 (a s);
               c4 = set_x_6502 c3 (x s);
               c5 = set_y_6502 c4 (y s);
               c6 = set_status_6502 c5 (status s);
               c7 = set_cycles_6502 c6 (ucast (cycles s))
           in m\<lparr>cpu := c7\<rparr>))"

section \<open>The host's side\<close>

text \<open>
  The host drives the emulation by calling \<^verbatim>\<open>cpu_step\<close> repeatedly and
  discarding or accumulating the returned cycle counts.
\<close>

fun cpu_run :: "nat \<Rightarrow> (cpu_state_t, 'b) machine \<Rightarrow> (cpu_state_t, 'b) machine" where
  "cpu_run 0 m = m"
| "cpu_run (Suc n) m = cpu_run n (snd (cpu_step m))"

text \<open>A host whose world is 64 KiB of RAM.\<close>

definition ram_read :: "(u16 \<Rightarrow> u8) read_func_t" where
  "ram_read h address = (h address, h)"

definition ram_write :: "(u16 \<Rightarrow> u8) write_func_t" where
  "ram_write h address val = h(address := val)"

definition ram_machine :: "'r \<Rightarrow> int \<Rightarrow> int \<Rightarrow> (u16 \<Rightarrow> u8) \<Rightarrow> ('r, u16 \<Rightarrow> u8) machine" where
  "ram_machine c irq nmi h =
     \<lparr>cpu = c, irq_pending = irq, nmi_pending = nmi,
      memory_read = Some ram_read, memory_write = Some ram_write, host = h\<rparr>"

text \<open>
  A host that only records the accesses it sees, most recent first, and
  answers every read with 0xEA.
\<close>

datatype bus_event = Read u16 | Write u16 u8

definition log_read :: "bus_event list read_func_t" where
  "log_read h address = (0xEA, Read address # h)"

definition log_write :: "bus_event list write_func_t" where
  "log_write h address val = Write address val # h"

definition log_machine :: "'r \<Rightarrow> int \<Rightarrow> int \<Rightarrow> ('r, bus_event list) machine" where
  "log_machine c irq nmi =
     \<lparr>cpu = c, irq_pending = irq, nmi_pending = nmi,
      memory_read = Some log_read, memory_write = Some log_write, host = []\<rparr>"

section \<open>Notions used in the statements\<close>

text \<open>
  The condition under which \<^verbatim>\<open>cpu_step\<close> services an interrupt instead of
  fetching an opcode: the first two \<^verbatim>\<open>if\<close>s of the function.
\<close>

definition interrupt_due :: "(cpu_state_t, 'b) machine \<Rightarrow> bool" where
  "interrupt_due m \<longleftrightarrow>
     nmi_pending m \<noteq> 0 \<or> (irq_pending m \<noteq> 0 \<and> status (cpu m) AND FLAG_INTERRUPT = 0)"

text \<open>The opcodes that have a \<^verbatim>\<open>case\<close> of their own in the \<^verbatim>\<open>switch\<close>.\<close>

definition decoded_opcodes :: "u8 set" where
  "decoded_opcodes = {0x00, 0x4C, 0x6C, 0xA9, 0xEA, 0x40}"

text \<open>
  The service sequence in the words of the spec (4.6), as bus operations on
  the state \<open>m\<close> found at the call: write the high byte of the program counter
  at \<open>0x0100 + sp\<close>, its low byte at \<open>0x0100 + (sp - 1)\<close>, the byte \<open>p\<close> at
  \<open>0x0100 + (sp - 2)\<close> (the stack pointer wraps modulo 256), set
  InterruptDisable, then read the new program counter from \<open>vector\<close> and
  \<open>vector + 1\<close>. The pushed status byte \<open>p\<close> is a parameter: the spec asks for
  the status register with the Break flag cleared.
\<close>

definition interrupt_sequence ::
  "(cpu_state_t, 'b) machine \<Rightarrow> u8 \<Rightarrow> u16 \<Rightarrow> (cpu_state_t, 'b) machine" where
  "interrupt_sequence m p vector =
     (let s0 = sp (cpu m);
          m1 = write6502 m (0x0100 + ucast s0) (ucast (drop_bit 8 (pc (cpu m))));
          m2 = write6502 m1 (0x0100 + ucast (s0 - 1)) (ucast (pc (cpu m)));
          m3 = write6502 m2 (0x0100 + ucast (s0 - 2)) p
      in case read6502 m3 vector of (lo, m4) \<Rightarrow>
         case read6502 m4 (vector + 1) of (hi, m5) \<Rightarrow>
           m5\<lparr>cpu := (cpu m)\<lparr>sp := s0 - 3,
                              status := status (cpu m) OR FLAG_INTERRUPT,
                              pc := word_of_bytes lo hi\<rparr>\<rparr>)"

text \<open>Adding the cycles of one step to the 64-bit counter.\<close>

definition add_cycles :: "u8 \<Rightarrow> (cpu_state_t, 'b) machine \<Rightarrow> (cpu_state_t, 'b) machine" where
  "add_cycles n m = m\<lparr>cpu := (cpu m)\<lparr>cycles := cycles (cpu m) + ucast n\<rparr>\<rparr>"

text \<open>
  The status register after \<^verbatim>\<open>LDA\<close> has loaded \<open>v\<close>: the three statements of the
  source's \<^verbatim>\<open>case 0xA9\<close> that touch \<^verbatim>\<open>cpu.status\<close>.
\<close>

definition lda_status :: "u8 \<Rightarrow> u8 \<Rightarrow> u8" where
  "lda_status st v =
     (let s1 = st AND NOT (FLAG_ZERO OR FLAG_SIGN);
          s2 = (if v = 0 then s1 OR FLAG_ZERO else s1)
      in if v AND 0x80 \<noteq> 0 then s2 OR FLAG_SIGN else s2)"

section \<open>Example states\<close>

definition blank_cpu :: cpu_state_t where
  "blank_cpu = \<lparr>pc = 0, sp = 0, a = 0, x = 0, y = 0, status = 0, cycles = 0\<rparr>"

definition blank_core :: core6502 where
  "blank_core = \<lparr>pc_6502 = 0, sp_6502 = 0, a_6502 = 0, x_6502 = 0, y_6502 = 0,
                 status_6502 = 0, cycles_6502 = 0\<rparr>"

text \<open>RAM whose reset vector holds 0x1234, and both cores in front of it.\<close>

definition vector_ram :: "u16 \<Rightarrow> u8" where
  "vector_ram = (\<lambda>_. 0)(0xFFFC := 0x34, 0xFFFD := 0x12)"

definition reset_example :: "(cpu_state_t, u16 \<Rightarrow> u8) machine" where
  "reset_example = ram_machine blank_cpu 1 1 vector_ram"

definition reset_example_w :: "(core6502, u16 \<Rightarrow> u8) machine" where
  "reset_example_w = ram_machine blank_core 1 1 vector_ram"

text \<open>A snapshot whose cycle counter has passed \<open>2 ^ 32\<close>, and one with every bit set.\<close>

definition long_session :: cpu_state_t where
  "long_session = \<lparr>pc = 0, sp = 0, a = 0, x = 0, y = 0, status = 0, cycles = 0x100000000\<rparr>"

definition all_ones :: cpu_state_t where
  "all_ones = \<lparr>pc = 0xFFFF, sp = 0xFF, a = 0xFF, x = 0xFF, y = 0xFF, status = 0xFF,
               cycles = 0xFFFFFFFF\<rparr>"

text \<open>
  A small program in RAM. Unlisted bytes are 0 (the opcode of BRK).
  0x0200 \<^verbatim>\<open>LDA #$42\<close>; 0x0210 \<^verbatim>\<open>JMP ($02FF)\<close>; 0x0220 \<^verbatim>\<open>JMP ($0300)\<close>;
  0x0230 \<^verbatim>\<open>LDA $0300\<close>; 0x0240 \<^verbatim>\<open>LDA $0300,X\<close>; 0x0250 the undocumented opcode
  0x02; 0x0260 \<^verbatim>\<open>RTI\<close>; 0x0280 \<^verbatim>\<open>JMP $0200\<close>; 0x0290 \<^verbatim>\<open>NOP\<close>; 0x02A0 \<^verbatim>\<open>LDA #$01\<close>;
  0x02B0 \<^verbatim>\<open>LDA #$00\<close>; 0x02C0 \<^verbatim>\<open>LDA #$80\<close>.
  Data: 0x34 at 0x02FF, 0x12 at 0x0300, 0x56 at 0x0301.
  Vectors: NMI 0x0260, reset 0x0200, IRQ and BRK 0x0400.
\<close>

definition program_ram :: "u16 \<Rightarrow> u8" where
  "program_ram = (\<lambda>_. 0)
     (0x0200 := 0xA9, 0x0201 := 0x42,
      0x0210 := 0x6C, 0x0211 := 0xFF, 0x0212 := 0x02,
      0x0220 := 0x6C, 0x0221 := 0x00, 0x0222 := 0x03,
      0x0230 := 0xAD, 0x0231 := 0x00, 0x0232 := 0x03,
      0x0240 := 0xBD, 0x0241 := 0x00, 0x0242 := 0x03,
      0x0250 := 0x02,
      0x0260 := 0x40,
      0x0280 := 0x4C, 0x0281 := 0x00, 0x0282 := 0x02,
      0x0290 := 0xEA,
      0x02A0 := 0xA9, 0x02A1 := 0x01,
      0x02B0 := 0xA9, 0x02B1 := 0x00,
      0x02C0 := 0xA9, 0x02C1 := 0x80,
      0x02FF := 0x34, 0x0300 := 0x12, 0x0301 := 0x56,
      0xFFFA := 0x60, 0xFFFB := 0x02,
      0xFFFC := 0x00, 0xFFFD := 0x02,
      0xFFFE := 0x00, 0xFFFF := 0x04)"

text \<open>Registers with the program counter and the status register chosen, \<open>sp = 0xFD\<close>.\<close>

definition cpu_at :: "u16 \<Rightarrow> u8 \<Rightarrow> cpu_state_t" where
  "cpu_at p st = \<lparr>pc = p, sp = 0xFD, a = 0, x = 0, y = 0, status = st, cycles = 0\<rparr>"

text \<open>The program, no interrupt pending.\<close>

definition program_at :: "u16 \<Rightarrow> u8 \<Rightarrow> (cpu_state_t, u16 \<Rightarrow> u8) machine" where
  "program_at p st = ram_machine (cpu_at p st) 0 0 program_ram"

text \<open>
  In front of the recording host: an NMI pending while the status register has
  Break set (0x30), and an IRQ pending with InterruptDisable clear (0x20).
\<close>

definition nmi_example :: "(cpu_state_t, bus_event list) machine" where
  "nmi_example = log_machine (cpu_at 0x0203 0x30) 0 1"

definition irq_example :: "(cpu_state_t, bus_event list) machine" where
  "irq_example = log_machine (cpu_at 0x0203 0x20) 1 0"

text \<open>Both latches set in front of the program, InterruptDisable clear.\<close>

definition both_pending :: "(cpu_state_t, u16 \<Rightarrow> u8) machine" where
  "both_pending = ram_machine (cpu_at 0x0200 0x20) 1 1 program_ram"

text \<open>\<open>both_pending\<close> after the NMI has been serviced, and after the handler's RTI.\<close>

definition after_nmi :: "(cpu_state_t, u16 \<Rightarrow> u8) machine" where
  "after_nmi =
     ram_machine \<lparr>pc = 0x0260, sp = 0xFA, a = 0, x = 0, y = 0, status = 0x24, cycles = 7\<rparr> 1 0
       (program_ram(0x01FD := 0x02, 0x01FC := 0x00, 0x01FB := 0x20))"

definition after_rti :: "(cpu_state_t, u16 \<Rightarrow> u8) machine" where
  "after_rti =
     ram_machine \<lparr>pc = 0x0200, sp = 0xFD, a = 0, x = 0, y = 0, status = 0x20, cycles = 13\<rparr> 1 0
       (program_ram(0x01FD := 0x02, 0x01FC := 0x00, 0x01FB := 0x20))"

section \<open>Auxiliary facts\<close>

subsection \<open>Bus accesses change the host's world only\<close>

lemma read6502_frame [simp]:
  "cpu (snd (read6502 m addr)) = cpu m"
  "irq_pending (snd (read6502 m addr)) = irq_pending m"
  "nmi_pending (snd (read6502 m addr)) = nmi_pending m"
  "memory_read (snd (read6502 m addr)) = memory_read m"
  "memory_write (snd (read6502 m addr)) = memory_write m"
  by (simp_all add: read6502_def split: option.split prod.split)

lemma read6502_cpu_update [simp]:
  "read6502 (m\<lparr>cpu := c\<rparr>) addr =
     (fst (read6502 m addr), (snd (read6502 m addr))\<lparr>cpu := c\<rparr>)"
  by (simp add: read6502_def split: option.split prod.split)

lemma write6502_frame [simp]:
  "cpu (write6502 m addr v) = cpu m"
  "irq_pending (write6502 m addr v) = irq_pending m"
  "nmi_pending (write6502 m addr v) = nmi_pending m"
  "memory_read (write6502 m addr v) = memory_read m"
  "memory_write (write6502 m addr v) = memory_write m"
  by (simp_all add: write6502_def split: option.split)

lemma write6502_cpu_update [simp]:
  "write6502 (m\<lparr>cpu := c\<rparr>) addr v = (write6502 m addr v)\<lparr>cpu := c\<rparr>"
  by (simp add: write6502_def split: option.split)

subsection \<open>Bytes and flag bits\<close>

lemma low_byte_mask: "(ucast (w AND 0xFF :: u16) :: u8) = ucast w"
proof -
  have *: "(0xFF :: u16) = mask 8"
    by (simp add: mask_eq_exp_minus_1)
  show ?thesis
    unfolding * by (rule bit_word_eqI) (simp only: bit_ucast_iff bit_and_iff bit_mask_iff, simp)
qed

lemma flags_as_powers:
  "FLAG_ZERO = 2 ^ 1" "FLAG_INTERRUPT = 2 ^ 2" "FLAG_BREAK = 2 ^ 4"
  "FLAG_CONSTANT = 2 ^ 5" "FLAG_SIGN = 2 ^ 7"
  by (simp_all add: FLAG_ZERO_def FLAG_INTERRUPT_def FLAG_BREAK_def FLAG_CONSTANT_def FLAG_SIGN_def)

lemma flag_bits:
  "bit FLAG_ZERO n \<longleftrightarrow> n = 1"
  "bit FLAG_INTERRUPT n \<longleftrightarrow> n = 2"
  "bit FLAG_BREAK n \<longleftrightarrow> n = 4"
  "bit FLAG_CONSTANT n \<longleftrightarrow> n = 5"
  "bit FLAG_SIGN n \<longleftrightarrow> n = 7"
  unfolding flags_as_powers by (auto simp only: bit_exp_iff possible_bit_word) simp_all

lemma ucast_u8_u16_unat: "unat (ucast (b :: u8) :: u16) = unat b"
  by (simp add: unsigned_ucast_eq take_bit_nat_eq_self unsigned_less [THEN less_trans])

text \<open>\<open>word_of_bytes\<close> is the little-endian reading of its two bytes.\<close>

lemma word_of_bytes_unat: "unat (word_of_bytes lo hi) = unat lo + 256 * unat hi"
proof -
  have disj: "\<not> bit (ucast lo :: u16) n \<or> \<not> bit (push_bit 8 (ucast hi) :: u16) n" for n
    by (auto simp add: bit_ucast_iff bit_push_bit_iff dest: bit_imp_le_length)
  have "word_of_bytes lo hi = ucast lo + push_bit 8 (ucast hi)"
    unfolding word_of_bytes_def using disj by (rule disjunctive_add [symmetric])
  moreover have lo: "unat lo < 256" and hi: "unat hi < 256"
    using unsigned_less [of lo, where ?'a = nat] unsigned_less [of hi, where ?'a = nat]
    by simp_all
  moreover have "unat (ucast lo :: u16) = unat lo"
    by (rule ucast_u8_u16_unat)
  moreover have "unat (push_bit 8 (ucast hi :: u16)) = 256 * unat hi"
    using hi by (simp add: push_bit_eq_mult unat_word_ariths ucast_u8_u16_unat)
  ultimately show ?thesis
    by (simp add: unat_word_ariths)
qed

subsection \<open>Reset\<close>

lemmas accessor_defs =
  get_pc_6502_def get_sp_6502_def get_a_6502_def get_x_6502_def get_y_6502_def
  get_status_6502_def get_cycles_6502_def
  set_pc_6502_def set_sp_6502_def set_a_6502_def set_x_6502_def set_y_6502_def
  set_status_6502_def set_cycles_6502_def

lemma cpu_reset_result:
  "cpu_reset m =
     (case read6502 m 0xFFFC of (lo, m1) \<Rightarrow> case read6502 m1 0xFFFD of (hi, m2) \<Rightarrow>
        m2\<lparr>cpu := \<lparr>pc = word_of_bytes lo hi, sp = 0xFF, a = 0, x = 0, y = 0,
                    status = 0x24, cycles = 0\<rparr>,
            irq_pending := 0, nmi_pending := 0\<rparr>)"
  by (simp add: cpu_reset_def read6502_word_def split_beta FLAG_CONSTANT_def FLAG_INTERRUPT_def)

lemma cpu_reset_w_result:
  "cpu_reset_w m =
     m\<lparr>cpu := \<lparr>pc_6502 = 0, sp_6502 = 0xFD, a_6502 = 0, x_6502 = 0, y_6502 = 0,
                status_6502 = 0x24, cycles_6502 = 0\<rparr>,
        irq_pending := 0, nmi_pending := 0\<rparr>"
  by (simp add: cpu_reset_w_def accessor_defs)

subsection \<open>Snapshots\<close>

lemma cycles_through_u32: "(ucast (ucast (w :: u64) :: u32) :: u64) = take_bit 32 w"
  by (simp add: unsigned_ucast_eq)

lemma take_bit_32_self_iff: "take_bit 32 (w :: u64) = w \<longleftrightarrow> w < 0x100000000"
proof -
  have "take_bit 32 w = w \<longleftrightarrow> unat (take_bit 32 w) = unat w"
    by (simp add: word_unat_eq_iff)
  also have "\<dots> \<longleftrightarrow> unat w < 2 ^ 32"
    by (simp add: unsigned_take_bit_eq take_bit_nat_eq_self_iff)
  also have "\<dots> \<longleftrightarrow> w < 0x100000000"
    by (simp add: word_less_nat_alt)
  finally show ?thesis .
qed

lemma snapshot_roundtrip_old:
  "cpu_get_state (cpu_set_state m (Some s)) (Some t) = Some s"
  by (simp add: cpu_get_state_def cpu_set_state_def)

lemma snapshot_roundtrip_w:
  "cpu_get_state_w (cpu_set_state_w m (Some s)) (Some t) =
     Some (s\<lparr>cycles := take_bit 32 (cycles s)\<rparr>)"
  by (cases s) (simp add: cpu_get_state_w_def cpu_set_state_w_def accessor_defs cycles_through_u32)

subsection \<open>One step\<close>

lemma interrupt_sequence_frame [simp]:
  "irq_pending (interrupt_sequence m p vector) = irq_pending m"
  "nmi_pending (interrupt_sequence m p vector) = nmi_pending m"
  "memory_read (interrupt_sequence m p vector) = memory_read m"
  "memory_write (interrupt_sequence m p vector) = memory_write m"
  by (simp_all add: interrupt_sequence_def Let_def split_beta)

lemma step_nmi:
  "nmi_pending m \<noteq> 0 \<Longrightarrow>
   cpu_step m =
     (7, add_cycles 7 ((interrupt_sequence m (status (cpu m)) 0xFFFA)\<lparr>nmi_pending := 0\<rparr>))"
  by (simp add: cpu_step_def interrupt_sequence_def push6502_def read6502_word_def
      add_cycles_def Let_def split_beta low_byte_mask)

lemma step_irq:
  "nmi_pending m = 0 \<Longrightarrow> irq_pending m \<noteq> 0 \<Longrightarrow> status (cpu m) AND FLAG_INTERRUPT = 0 \<Longrightarrow>
   cpu_step m =
     (7, add_cycles 7 ((interrupt_sequence m (status (cpu m)) 0xFFFE)\<lparr>irq_pending := 0\<rparr>))"
  by (simp add: cpu_step_def interrupt_sequence_def push6502_def read6502_word_def
      add_cycles_def Let_def split_beta low_byte_mask)

lemma step_instruction:
  "\<not> interrupt_due m \<Longrightarrow>
   cpu_step m =
     (let r = read6502 m (pc (cpu m));
          e = execute (fst r) ((snd r)\<lparr>cpu := (cpu m)\<lparr>pc := pc (cpu m) + 1\<rparr>\<rparr>)
      in (fst e, add_cycles (fst e) (snd e)))"
  by (auto simp add: cpu_step_def interrupt_due_def add_cycles_def Let_def split_beta)

lemma execute_cycles:
  "fst (execute opcode m) =
     (if opcode = 0x00 then 7 else if opcode = 0x4C then 3 else if opcode = 0x6C then 5
      else if opcode = 0xA9 then 2 else if opcode = 0xEA then 2 else if opcode = 0x40 then 6
      else 2)"
  by (simp add: execute_def Let_def split_beta)

lemma execute_undecoded:
  "opcode \<notin> decoded_opcodes \<Longrightarrow> execute opcode m = (2, m)"
  by (simp add: execute_def decoded_opcodes_def)

lemma execute_latches:
  "irq_pending (snd (execute opcode m)) = irq_pending m"
  "nmi_pending (snd (execute opcode m)) = nmi_pending m"
  by (simp_all add: execute_def Let_def split_beta push6502_def pull6502_def read6502_word_def)

subsection \<open>Words read from the bus, and the page of a pointer\<close>

lemma read6502_word_frame [simp]:
  "cpu (snd (read6502_word m addr)) = cpu m"
  "irq_pending (snd (read6502_word m addr)) = irq_pending m"
  "nmi_pending (snd (read6502_word m addr)) = nmi_pending m"
  by (simp_all add: read6502_word_def split_beta)

lemma read6502_word_cpu_update [simp]:
  "read6502_word (m\<lparr>cpu := c\<rparr>) addr =
     (fst (read6502_word m addr), (snd (read6502_word m addr))\<lparr>cpu := c\<rparr>)"
  by (simp add: read6502_word_def split_beta)

lemma split_at_page:
  fixes ptr :: u16
  shows "ptr = (ptr AND 0xFF00) + (ptr AND 0xFF)"
proof -
  have lo: "(0xFF :: u16) = mask 8" by (simp add: mask_eq_exp_minus_1)
  have hi: "(0xFF00 :: u16) = NOT (mask 8)" by (simp add: mask_eq_exp_minus_1)
  have "(ptr AND NOT (mask 8)) + (ptr AND mask 8) = (ptr AND NOT (mask 8)) OR (ptr AND mask 8)"
    by (rule disjunctive_add) (simp add: bit_and_iff bit_not_iff)
  also have "\<dots> = ptr"
    by (rule bit_word_eqI) (auto simp add: bit_or_iff bit_and_iff bit_not_iff)
  finally show ?thesis
    by (simp only: lo hi)
qed

lemma page_wrap_differs:
  fixes ptr :: u16
  assumes "ptr AND 0xFF = 0xFF"
  shows "ptr AND 0xFF00 \<noteq> ptr + 1"
proof
  assume eq: "ptr AND 0xFF00 = ptr + 1"
  have "ptr = (ptr AND 0xFF00) + (ptr AND 0xFF)"
    by (rule split_at_page)
  with assms eq have "ptr = ptr + 1 + 0xFF" by simp
  then have "ptr + 0 = ptr + 0x100" by (simp add: add.assoc)
  then have "(0 :: u16) = 0x100" by (simp only: add_left_cancel)
  then show False by simp
qed

subsection \<open>Flags after a load\<close>

lemma flag_test:
  "w AND FLAG_ZERO \<noteq> 0 \<longleftrightarrow> bit w 1"
  "w AND FLAG_INTERRUPT \<noteq> 0 \<longleftrightarrow> bit w 2"
  "w AND FLAG_BREAK \<noteq> 0 \<longleftrightarrow> bit w 4"
  "w AND FLAG_CONSTANT \<noteq> 0 \<longleftrightarrow> bit w 5"
  "w AND FLAG_SIGN \<noteq> 0 \<longleftrightarrow> bit w 7"
  unfolding flags_as_powers by (simp_all only: and_exp_eq_0_iff_not_bit not_not)

lemma sign_test: "(v :: u8) AND 0x80 \<noteq> 0 \<longleftrightarrow> bit v 7"
  using flag_test(5) [of v] by (simp add: FLAG_SIGN_def)

lemma bit_lda_status:
  "bit (lda_status st v) n \<longleftrightarrow>
     (if n = 1 then v = 0 else if n = 7 then bit v 7 else bit st n)"
proof -
  have "\<not> bit (0 :: u8) 7" by simp
  then show ?thesis
    by (auto simp add: lda_status_def Let_def sign_test bit_or_iff bit_and_iff bit_not_iff flag_bits
        dest: bit_imp_le_length)
qed

lemma lda_status_flags:
  "lda_status st v AND FLAG_ZERO \<noteq> 0 \<longleftrightarrow> v = 0"
  "lda_status st v AND FLAG_SIGN \<noteq> 0 \<longleftrightarrow> bit v 7"
  "lda_status st v AND NOT (FLAG_ZERO OR FLAG_SIGN) = st AND NOT (FLAG_ZERO OR FLAG_SIGN)"
proof -
  show "lda_status st v AND FLAG_ZERO \<noteq> 0 \<longleftrightarrow> v = 0"
    by (simp only: flag_test bit_lda_status) simp
  show "lda_status st v AND FLAG_SIGN \<noteq> 0 \<longleftrightarrow> bit v 7"
    by (simp only: flag_test bit_lda_status) simp
  show "lda_status st v AND NOT (FLAG_ZERO OR FLAG_SIGN) = st AND NOT (FLAG_ZERO OR FLAG_SIGN)"
    by (rule bit_word_eqI) (auto simp add: bit_and_iff bit_not_iff bit_or_iff flag_bits bit_lda_status)
qed

lemma execute_lda:
  assumes "read6502 m (pc (cpu m)) = (v, m1)"
  shows "execute 0xA9 m =
     (2, m1\<lparr>cpu := (cpu m)\<lparr>pc := pc (cpu m) + 1, a := v, status := lda_status (status (cpu m)) v\<rparr>\<rparr>)"
  using assms by (simp add: execute_def lda_status_def Let_def)


subsection \<open>Cycle counts\<close>

lemma step_interrupt_cycles: "interrupt_due m \<Longrightarrow> fst (cpu_step m) = 7"
  by (auto simp add: cpu_step_def interrupt_due_def Let_def)

lemma step_instruction_cycles:
  "\<not> interrupt_due m \<Longrightarrow>
   fst (cpu_step m) =
     (let opcode = fst (read6502 m (pc (cpu m)))
      in if opcode = 0x00 then 7 else if opcode = 0x4C then 3 else if opcode = 0x6C then 5
         else if opcode = 0xA9 then 2 else if opcode = 0xEA then 2 else if opcode = 0x40 then 6
         else 2)"
  by (simp add: step_instruction Let_def execute_cycles)

subsection \<open>Bit 5 of the status register\<close>

lemma constant_bit_or_and:
  "(st OR FLAG_INTERRUPT) AND FLAG_CONSTANT = st AND FLAG_CONSTANT"
  "lda_status st v AND FLAG_CONSTANT = st AND FLAG_CONSTANT"
  by (rule bit_word_eqI; auto simp add: bit_and_iff bit_or_iff flag_bits bit_lda_status)+

lemma interrupt_sequence_status [simp]:
  "status (cpu (interrupt_sequence m p vector)) = status (cpu m) OR FLAG_INTERRUPT"
  by (simp add: interrupt_sequence_def Let_def split_beta)

lemma execute_keeps_constant:
  assumes "opcode \<noteq> 0x40"
  shows "status (cpu (snd (execute opcode m))) AND FLAG_CONSTANT = status (cpu m) AND FLAG_CONSTANT"
proof -
  have lda: "status (cpu (snd (execute 0xA9 m))) = lda_status (status (cpu m)) (fst (read6502 m (pc (cpu m))))"
    by (simp add: execute_lda [OF prod.collapse [symmetric]])
  have others: "opcode \<noteq> 0xA9 \<Longrightarrow> ?thesis"
    using assms
    by (simp add: execute_def Let_def split_beta push6502_def constant_bit_or_and)
  show ?thesis
    using lda others by (cases "opcode = 0xA9") (simp_all add: constant_bit_or_and)
qed

lemma execute_rti:
  assumes "read6502 m (0x0100 + ucast (sp (cpu m) + 1)) = (p, m1)"
  shows "status (cpu (snd (execute 0x40 m))) = p"
  using assms by (simp add: execute_def pull6502_def Let_def split_beta)

subsection \<open>Runs of steps\<close>

lemma cpu_run_snoc: "cpu_run (Suc n) m = snd (cpu_step (cpu_run n m))"
  by (induction n arbitrary: m) simp_all

lemma add_cycles_frame [simp]:
  "irq_pending (add_cycles n m) = irq_pending m"
  "nmi_pending (add_cycles n m) = nmi_pending m"
  "host (add_cycles n m) = host m"
  by (simp_all add: add_cycles_def)

lemma instruction_keeps_latches:
  assumes "\<not> interrupt_due m"
  shows "irq_pending (snd (cpu_step m)) = irq_pending m"
    and "nmi_pending (snd (cpu_step m)) = nmi_pending m"
  using assms by (simp_all add: step_instruction Let_def execute_latches)

lemma nmi_service_latches:
  assumes "nmi_pending m \<noteq> 0"
  shows "irq_pending (snd (cpu_step m)) = irq_pending m"
    and "nmi_pending (snd (cpu_step m)) = 0"
    and "status (cpu (snd (cpu_step m))) AND FLAG_INTERRUPT \<noteq> 0"
  using assms
  by (simp_all add: step_nmi add_cycles_def interrupt_sequence_def Let_def split_beta FLAG_INTERRUPT_def
      word_ao_absorbs)

lemma irq_stays_latched:
  assumes "nmi_pending m \<noteq> 0" and "irq_pending m \<noteq> 0"
    and "0 < n"
    and "\<forall>k. 0 < k \<and> k < n \<longrightarrow> status (cpu (cpu_run k m)) AND FLAG_INTERRUPT \<noteq> 0"
  shows "irq_pending (cpu_run n m) = irq_pending m \<and> nmi_pending (cpu_run n m) = 0"
  using assms(3,4)
proof (induction n)
  case 0
  then show ?case by simp
next
  case (Suc n)
  show ?case
  proof (cases "n = 0")
    case True
    then show ?thesis
      using nmi_service_latches [OF assms(1)] by simp
  next
    case False
    then have pos: "0 < n" by simp
    have "\<forall>k. 0 < k \<and> k < n \<longrightarrow> status (cpu (cpu_run k m)) AND FLAG_INTERRUPT \<noteq> 0"
      using Suc.prems(2) by simp
    with pos Suc.IH have latches: "irq_pending (cpu_run n m) = irq_pending m" "nmi_pending (cpu_run n m) = 0"
      by simp_all
    have "status (cpu (cpu_run n m)) AND FLAG_INTERRUPT \<noteq> 0"
      using Suc.prems(2) pos by simp
    with latches have "\<not> interrupt_due (cpu_run n m)"
      by (simp add: interrupt_due_def)
    then have "irq_pending (snd (cpu_step (cpu_run n m))) = irq_pending (cpu_run n m)"
      and "nmi_pending (snd (cpu_step (cpu_run n m))) = nmi_pending (cpu_run n m)"
      by (rule instruction_keeps_latches)+
    with latches show ?thesis
      by (simp only: cpu_run_snoc)
  qed
qed


subsection \<open>Evaluating the examples\<close>

lemmas log_defs = log_machine_def log_read_def log_write_def read6502_def write6502_def
  cpu_at_def interrupt_sequence_def add_cycles_def word_of_bytes_def FLAG_INTERRUPT_def
  FLAG_BREAK_def

lemmas ram_defs = ram_machine_def ram_read_def ram_write_def read6502_def write6502_def
  cpu_at_def interrupt_sequence_def add_cycles_def word_of_bytes_def FLAG_INTERRUPT_def FLAG_BREAK_def

lemma low_byte_0x0200: "(512 :: u8) = 0"
  by simp

lemma both_1: "snd (cpu_step both_pending) = after_nmi"
  by (simp add: low_byte_0x0200 add: step_nmi both_pending_def after_nmi_def ram_defs program_ram_def)

lemma both_2: "snd (cpu_step after_nmi) = after_rti"
  by (simp add: cpu_step_def execute_def pull6502_def after_nmi_def after_rti_def ram_defs program_ram_def)

lemma run_both:
  "cpu_run (Suc 0) both_pending = after_nmi" "cpu_run 2 both_pending = after_rti"
  by (simp_all only: numeral_2_eq_2 cpu_run.simps both_1 both_2)

lemma jmp_reads:
  "read6502 (program_at 0x0210 0x24) 0x0210 = (0x6C, program_at 0x0210 0x24)"
  "read6502_word (program_at 0x0210 0x24) 0x0211 = (0x02FF, program_at 0x0210 0x24)"
  "read6502 (program_at 0x0210 0x24) 0x02FF = (0x34, program_at 0x0210 0x24)"
  "read6502 (program_at 0x0210 0x24) 0x0200 = (0xA9, program_at 0x0210 0x24)"
  "read6502 (program_at 0x0220 0x24) 0x0220 = (0x6C, program_at 0x0220 0x24)"
  "read6502_word (program_at 0x0220 0x24) 0x0221 = (0x0300, program_at 0x0220 0x24)"
  "read6502 (program_at 0x0220 0x24) 0x0300 = (0x12, program_at 0x0220 0x24)"
  "read6502 (program_at 0x0220 0x24) 0x0301 = (0x56, program_at 0x0220 0x24)"
  by (simp_all add: program_at_def read6502_word_def ram_defs program_ram_def)

lemma program_reads:
  "read6502 (program_at p st) addr = (program_ram addr, program_at p st)"
  by (simp add: program_at_def ram_machine_def read6502_def ram_read_def)

lemma program_idle: "\<not> interrupt_due (program_at p st)"
  by (simp add: interrupt_due_def program_at_def ram_machine_def)

lemma program_cpu: "cpu (program_at p st) = cpu_at p st"
  by (simp add: program_at_def ram_machine_def)

lemma program_costs:
  "fst (cpu_step (program_at p st)) =
     (let opcode = program_ram p
      in if opcode = 0x00 then 7 else if opcode = 0x4C then 3 else if opcode = 0x6C then 5
         else if opcode = 0xA9 then 2 else if opcode = 0xEA then 2 else if opcode = 0x40 then 6
         else 2)"
  by (simp add: step_instruction_cycles program_idle program_reads program_cpu cpu_at_def)

subsection \<open>The registers A, X and Y\<close>

lemma interrupt_sequence_registers [simp]:
  "a (cpu (interrupt_sequence m p vector)) = a (cpu m)"
  "x (cpu (interrupt_sequence m p vector)) = x (cpu m)"
  "y (cpu (interrupt_sequence m p vector)) = y (cpu m)"
  by (simp_all add: interrupt_sequence_def Let_def split_beta)

lemma execute_registers:
  assumes "opcode \<noteq> 0xA9"
  shows "a (cpu (snd (execute opcode m))) = a (cpu m)"
    and "x (cpu (snd (execute opcode m))) = x (cpu m)"
    and "y (cpu (snd (execute opcode m))) = y (cpu m)"
  using assms
  by (simp_all add: execute_def Let_def split_beta push6502_def pull6502_def)

lemma step_registers:
  assumes "interrupt_due m \<or> fst (read6502 m (pc (cpu m))) \<noteq> 0xA9"
  shows "a (cpu (snd (cpu_step m))) = a (cpu m)
     \<and> x (cpu (snd (cpu_step m))) = x (cpu m)
     \<and> y (cpu (snd (cpu_step m))) = y (cpu m)"
proof -
  from assms consider "nmi_pending m \<noteq> 0"
    | "nmi_pending m = 0" "irq_pending m \<noteq> 0" "status (cpu m) AND FLAG_INTERRUPT = 0"
    | "\<not> interrupt_due m" "fst (read6502 m (pc (cpu m))) \<noteq> 0xA9"
    by (auto simp add: interrupt_due_def)
  then show ?thesis
  proof cases
    case 1
    then show ?thesis by (simp add: step_nmi add_cycles_def)
  next
    case 2
    then show ?thesis by (simp add: step_irq add_cycles_def)
  next
    case 3
    then show ?thesis by (simp add: step_instruction Let_def add_cycles_def execute_registers)
  qed
qed

text \<open>One step that executes LDA immediate.\<close>

lemma step_lda:
  assumes "\<not> interrupt_due m"
    and "read6502 m (pc (cpu m)) = (0xA9, m1)"
    and "read6502 m1 (pc (cpu m) + 1) = (v, m2)"
  shows "fst (cpu_step m) = 2
     \<and> a (cpu (snd (cpu_step m))) = v
     \<and> pc (cpu (snd (cpu_step m))) = pc (cpu m) + 2
     \<and> (status (cpu (snd (cpu_step m))) AND FLAG_ZERO \<noteq> 0 \<longleftrightarrow> v = 0)
     \<and> (status (cpu (snd (cpu_step m))) AND FLAG_SIGN \<noteq> 0 \<longleftrightarrow> bit v 7)
     \<and> status (cpu (snd (cpu_step m))) AND NOT (FLAG_ZERO OR FLAG_SIGN)
         = status (cpu m) AND NOT (FLAG_ZERO OR FLAG_SIGN)
     \<and> sp (cpu (snd (cpu_step m))) = sp (cpu m)
     \<and> x (cpu (snd (cpu_step m))) = x (cpu m)
     \<and> y (cpu (snd (cpu_step m))) = y (cpu m)
     \<and> host (snd (cpu_step m)) = host m2
     \<and> (pc (cpu m) = 0x0200 \<and> v = 0x42 \<longrightarrow>
          a (cpu (snd (cpu_step m))) = 0x42 \<and> pc (cpu (snd (cpu_step m))) = 0x0202
          \<and> status (cpu (snd (cpu_step m))) AND FLAG_ZERO = 0
          \<and> status (cpu (snd (cpu_step m))) AND FLAG_SIGN = 0)"
proof -
  have cpu1: "cpu m1 = cpu m"
    using assms(2) read6502_frame(1) [of m "pc (cpu m)"] by simp
  have "execute 0xA9 (m1\<lparr>cpu := (cpu m)\<lparr>pc := pc (cpu m) + 1\<rparr>\<rparr>) =
      (2, m2\<lparr>cpu := (cpu m)\<lparr>pc := pc (cpu m) + 1 + 1, a := v,
                               status := lda_status (status (cpu m)) v\<rparr>\<rparr>)"
    using assms(3) by (subst execute_lda [where ?m1.0 = "m2\<lparr>cpu := (cpu m)\<lparr>pc := pc (cpu m) + 1\<rparr>\<rparr>"]) simp_all
  then have step: "cpu_step m =
      (2, m2\<lparr>cpu := (cpu m)\<lparr>pc := pc (cpu m) + 2, a := v,
                               status := lda_status (status (cpu m)) v,
                               cycles := cycles (cpu m) + 2\<rparr>\<rparr>)"
    using assms(1,2) by (simp add: step_instruction add_cycles_def)
  have clear: "\<not> bit (0x42 :: u8) 7" "(0x42 :: u8) \<noteq> 0"
    by simp_all
  show ?thesis
    using lda_status_flags [of "status (cpu m)" v] clear
    by (auto simp add: step)
qed

section \<open>The claims\<close>

text \<open>
  C1. After \<^verbatim>\<open>reset()\<close> the status register is 0x24, the cycle counter is 0 and both
  latches are clear, in both implementations. The simplified core loads the
  program counter with the little-endian word read from 0xFFFC and then 0xFFFD,
  and these two reads are its only bus accesses. The wrapper sets the stack
  pointer to 0xFD and the program counter to 0x0000 and does not touch the bus.
\<close>

theorem reset_state:
  "status (cpu (cpu_reset m)) = 0x24 \<and> cycles (cpu (cpu_reset m)) = 0
   \<and> pc (cpu (cpu_reset m)) =
        word_of_bytes (fst (read6502 m 0xFFFC)) (fst (read6502 (snd (read6502 m 0xFFFC)) 0xFFFD))
   \<and> host (cpu_reset m) = host (snd (read6502 (snd (read6502 m 0xFFFC)) 0xFFFD))
   \<and> irq_pending (cpu_reset m) = 0 \<and> nmi_pending (cpu_reset m) = 0
   \<and> get_sp_6502 (cpu (cpu_reset_w mw)) = 0xFD \<and> get_status_6502 (cpu (cpu_reset_w mw)) = 0x24
   \<and> get_cycles_6502 (cpu (cpu_reset_w mw)) = 0 \<and> get_pc_6502 (cpu (cpu_reset_w mw)) = 0
   \<and> host (cpu_reset_w mw) = host mw
   \<and> irq_pending (cpu_reset_w mw) = 0 \<and> nmi_pending (cpu_reset_w mw) = 0"
  by (simp add: cpu_reset_result cpu_reset_w_result accessor_defs split_beta)

text \<open>
  In front of RAM whose reset vector holds 0x1234, the simplified core leaves
  the reset with a stack pointer other than 0xFD, and the wrapper with a
  program counter other than the vector.
\<close>

theorem reset_state_counterexample:
  "\<not> sp (cpu (cpu_reset reset_example)) = 0xFD
   \<and> \<not> get_pc_6502 (cpu (cpu_reset_w reset_example_w)) = fst (read6502_word reset_example_w 0xFFFC)"
  by (simp add: cpu_reset_result cpu_reset_w_result accessor_defs split_beta reset_example_def
      reset_example_w_def ram_machine_def read6502_word_def read6502_def ram_read_def vector_ram_def
      word_of_bytes_def)

theorem reset_state_witness:
  "pc (cpu (cpu_reset reset_example)) = 0x1234 \<and> status (cpu (cpu_reset reset_example)) = 0x24
   \<and> cycles (cpu (cpu_reset reset_example)) = 0
   \<and> get_sp_6502 (cpu (cpu_reset_w reset_example_w)) = 0xFD
   \<and> get_pc_6502 (cpu (cpu_reset_w reset_example_w)) = 0"
  using reset_state [of reset_example reset_example_w]
  by (simp add: reset_example_def ram_machine_def read6502_def ram_read_def vector_ram_def
      word_of_bytes_def)

text \<open>
  C2. Whenever \<^verbatim>\<open>step()\<close> services a hardware interrupt (the NMI latch is set; or it
  is clear, the IRQ latch is set and InterruptDisable is clear), it performs
  exactly the sequence \<open>interrupt_sequence\<close>: it writes the high byte of the
  program counter at \<open>0x0100 + sp\<close>, the low byte at \<open>0x0100 + (sp - 1)\<close> and the
  status register, as it stands, at \<open>0x0100 + (sp - 2)\<close>, the stack pointer
  wrapping modulo 256 and ending at \<open>sp - 3\<close>; it sets InterruptDisable; it reads
  the program counter from 0xFFFA and 0xFFFB for the NMI, from 0xFFFE and 0xFFFF
  for the IRQ. It then clears the latch it serviced, adds 7 to the cycle counter
  and returns 7. The pushed status byte carries the Break bit of the register
  unchanged.
\<close>

theorem interrupt_service:
  "(nmi_pending m \<noteq> 0 \<longrightarrow>
      cpu_step m =
        (7, add_cycles 7 ((interrupt_sequence m (status (cpu m)) 0xFFFA)\<lparr>nmi_pending := 0\<rparr>)))
   \<and> (nmi_pending m = 0 \<and> irq_pending m \<noteq> 0 \<and> status (cpu m) AND FLAG_INTERRUPT = 0 \<longrightarrow>
      cpu_step m =
        (7, add_cycles 7 ((interrupt_sequence m (status (cpu m)) 0xFFFE)\<lparr>irq_pending := 0\<rparr>)))"
  using step_nmi [of m] step_irq [of m] by blast

text \<open>
  With an NMI pending and the status register 0x30 (Break set), the step is not
  the sequence that pushes the status with Break cleared: the recording host
  sees 0x30 written at 0x01FB.
\<close>

theorem interrupt_service_counterexample:
  "cpu_step nmi_example \<noteq>
     (7, add_cycles 7 ((interrupt_sequence nmi_example
                          (status (cpu nmi_example) AND NOT FLAG_BREAK) 0xFFFA)\<lparr>nmi_pending := 0\<rparr>))
   \<and> host (snd (cpu_step nmi_example)) =
       [Read 0xFFFB, Read 0xFFFA, Write 0x01FB 0x30, Write 0x01FC 0x03, Write 0x01FD 0x02]"
  by (simp add: step_nmi nmi_example_def log_defs)

theorem interrupt_service_witness:
  "cpu_step nmi_example =
     (7, log_machine \<lparr>pc = 0xEAEA, sp = 0xFA, a = 0, x = 0, y = 0, status = 0x34, cycles = 7\<rparr> 0 0
           \<lparr>host := [Read 0xFFFB, Read 0xFFFA,
                     Write 0x01FB 0x30, Write 0x01FC 0x03, Write 0x01FD 0x02]\<rparr>)
   \<and> cpu_step irq_example =
     (7, log_machine \<lparr>pc = 0xEAEA, sp = 0xFA, a = 0, x = 0, y = 0, status = 0x24, cycles = 7\<rparr> 0 0
           \<lparr>host := [Read 0xFFFF, Read 0xFFFE,
                     Write 0x01FB 0x20, Write 0x01FC 0x03, Write 0x01FD 0x02]\<rparr>)"
  using interrupt_service [of nmi_example] interrupt_service [of irq_example]
  by (simp add: nmi_example_def irq_example_def log_defs)

text \<open>
  C3. When both latches are set, \<^verbatim>\<open>step()\<close> services the NMI: it returns 7, loads
  the program counter from 0xFFFA and 0xFFFB, clears the NMI latch and leaves
  the IRQ latch as it was. Over the following steps the IRQ latch stays set for
  as long as every step begins with InterruptDisable set; and the first step
  that begins with InterruptDisable clear services the IRQ (vector 0xFFFE and
  0xFFFF) and clears its latch. \<open>cpu_run n m\<close> is the state after \<open>n\<close> steps.
\<close>

theorem nmi_first:
  assumes "nmi_pending m \<noteq> 0" and "irq_pending m \<noteq> 0"
  shows "cpu_step m =
           (7, add_cycles 7 ((interrupt_sequence m (status (cpu m)) 0xFFFA)\<lparr>nmi_pending := 0\<rparr>))
     \<and> nmi_pending (snd (cpu_step m)) = 0
     \<and> irq_pending (snd (cpu_step m)) = irq_pending m
     \<and> (0 < n \<and> (\<forall>k. 0 < k \<and> k < n \<longrightarrow> status (cpu (cpu_run k m)) AND FLAG_INTERRUPT \<noteq> 0)
          \<longrightarrow> irq_pending (cpu_run n m) = irq_pending m \<and> nmi_pending (cpu_run n m) = 0)
     \<and> (0 < n \<and> (\<forall>k. 0 < k \<and> k < n \<longrightarrow> status (cpu (cpu_run k m)) AND FLAG_INTERRUPT \<noteq> 0)
          \<and> status (cpu (cpu_run n m)) AND FLAG_INTERRUPT = 0
          \<longrightarrow> cpu_step (cpu_run n m) =
                (7, add_cycles 7 ((interrupt_sequence (cpu_run n m) (status (cpu (cpu_run n m))) 0xFFFE)
                                    \<lparr>irq_pending := 0\<rparr>)))"
proof -
  have later: "cpu_step (cpu_run n m) =
      (7, add_cycles 7 ((interrupt_sequence (cpu_run n m) (status (cpu (cpu_run n m))) 0xFFFE)
                          \<lparr>irq_pending := 0\<rparr>))"
    if "0 < n" and "\<forall>k. 0 < k \<and> k < n \<longrightarrow> status (cpu (cpu_run k m)) AND FLAG_INTERRUPT \<noteq> 0"
      and "status (cpu (cpu_run n m)) AND FLAG_INTERRUPT = 0"
  proof -
    from irq_stays_latched [OF assms that(1,2)]
    have "nmi_pending (cpu_run n m) = 0" and "irq_pending (cpu_run n m) \<noteq> 0"
      using assms(2) by simp_all
    then show ?thesis
      using that(3) by (rule step_irq)
  qed
  show ?thesis
    using step_nmi [OF assms(1)] nmi_service_latches(1,2) [OF assms(1)]
      irq_stays_latched [OF assms, of n] later
    by blast
qed

theorem nmi_first_witness:
  "pc (cpu (snd (cpu_step both_pending))) = 0x0260
   \<and> nmi_pending (snd (cpu_step both_pending)) = 0
   \<and> irq_pending (cpu_run 2 both_pending) = 1
   \<and> nmi_pending (cpu_run 2 both_pending) = 0
   \<and> fst (cpu_step (cpu_run 2 both_pending)) = 7
   \<and> pc (cpu (snd (cpu_step (cpu_run 2 both_pending)))) = 0x0400
   \<and> irq_pending (snd (cpu_step (cpu_run 2 both_pending))) = 0"
proof -
  have pending: "nmi_pending both_pending \<noteq> 0" "irq_pending both_pending \<noteq> 0"
    by (simp_all add: both_pending_def ram_machine_def)
  have disabled: "\<forall>k. 0 < k \<and> k < 2 \<longrightarrow>
      status (cpu (cpu_run k both_pending)) AND FLAG_INTERRUPT \<noteq> 0"
  proof (intro allI impI)
    fix k :: nat
    assume "0 < k \<and> k < 2"
    then have "k = Suc 0" by simp
    then show "status (cpu (cpu_run k both_pending)) AND FLAG_INTERRUPT \<noteq> 0"
      by (simp add: both_1 after_nmi_def ram_machine_def FLAG_INTERRUPT_def)
  qed
  have enabled: "status (cpu (cpu_run 2 both_pending)) AND FLAG_INTERRUPT = 0"
    by (simp add: run_both after_rti_def ram_machine_def FLAG_INTERRUPT_def)
  note inst = nmi_first [OF pending, of 2]
  from inst have first: "cpu_step both_pending =
      (7, add_cycles 7 ((interrupt_sequence both_pending (status (cpu both_pending)) 0xFFFA)
                          \<lparr>nmi_pending := 0\<rparr>))"
    by (rule conjunct1)
  from inst disabled have latched: "irq_pending (cpu_run 2 both_pending) = irq_pending both_pending"
      "nmi_pending (cpu_run 2 both_pending) = 0"
    by simp_all
  from inst disabled enabled have later: "cpu_step (cpu_run 2 both_pending) =
      (7, add_cycles 7 ((interrupt_sequence (cpu_run 2 both_pending)
                           (status (cpu (cpu_run 2 both_pending))) 0xFFFE)\<lparr>irq_pending := 0\<rparr>))"
    by simp
  have "pc (cpu (snd (cpu_step both_pending))) = 0x0260"
      "nmi_pending (snd (cpu_step both_pending)) = 0"
    unfolding first by (simp_all add: both_pending_def ram_defs program_ram_def)
  moreover have "irq_pending (cpu_run 2 both_pending) = 1"
    unfolding latched by (simp add: both_pending_def ram_machine_def)
  moreover have "fst (cpu_step (cpu_run 2 both_pending)) = 7"
      "pc (cpu (snd (cpu_step (cpu_run 2 both_pending)))) = 0x0400"
      "irq_pending (snd (cpu_step (cpu_run 2 both_pending))) = 0"
    unfolding run_both later [unfolded run_both]
    by (simp_all add: after_rti_def ram_defs program_ram_def)
  ultimately show ?thesis
    using latched(2) by simp
qed

text \<open>
  C4. When \<^verbatim>\<open>step()\<close> executes JMP indirect (opcode 0x6C, no interrupt due), the
  pointer \<open>ptr\<close> is the word at \<open>pc + 1\<close>, the low byte of the new program counter
  is read from \<open>ptr\<close>, and the high byte is read from \<open>ptr AND 0xFF00\<close> when the
  pointer has the form 0xnnFF (the start of its own page, which is not the next
  address \<open>ptr + 1\<close>) and from \<open>ptr + 1\<close> otherwise. The step costs 5 cycles and
  changes no other register. The reads happen in the order of the hypotheses.
\<close>

theorem jmp_indirect:
  assumes "\<not> interrupt_due m"
    and "read6502 m (pc (cpu m)) = (0x6C, m1)"
    and "read6502_word m1 (pc (cpu m) + 1) = (ptr, m2)"
    and "read6502 m2 ptr = (lo, m3)"
    and "read6502 m3 (if ptr AND 0xFF = 0xFF then ptr AND 0xFF00 else ptr + 1) = (hi, m4)"
  shows "cpu_step m =
           (5, m4\<lparr>cpu := (cpu m)\<lparr>pc := word_of_bytes lo hi, cycles := cycles (cpu m) + 5\<rparr>\<rparr>)
         \<and> (ptr AND 0xFF = 0xFF \<longrightarrow> ptr AND 0xFF00 \<noteq> ptr + 1)"
proof -
  have fetch: "cpu_step m =
      (let e = execute 0x6C (m1\<lparr>cpu := (cpu m)\<lparr>pc := pc (cpu m) + 1\<rparr>\<rparr>)
       in (fst e, add_cycles (fst e) (snd e)))"
    using assms(1,2) by (simp add: step_instruction)
  have "execute 0x6C (m1\<lparr>cpu := (cpu m)\<lparr>pc := pc (cpu m) + 1\<rparr>\<rparr>) =
      (5, m4\<lparr>cpu := (cpu m)\<lparr>pc := word_of_bytes lo hi\<rparr>\<rparr>)"
    using assms(3-5)
    by (cases "ptr AND 0xFF = 0xFF") (simp_all add: execute_def read6502_word_def [of _ ptr] split_beta)
  then show ?thesis
    using page_wrap_differs [of ptr] by (simp add: fetch add_cycles_def)
qed

theorem jmp_indirect_witness:
  "cpu_step (program_at 0x0210 0x24) =
     (5, (program_at 0x0210 0x24)\<lparr>cpu := (cpu_at 0xA934 0x24)\<lparr>cycles := 5\<rparr>\<rparr>)
   \<and> cpu_step (program_at 0x0220 0x24) =
     (5, (program_at 0x0220 0x24)\<lparr>cpu := (cpu_at 0x5612 0x24)\<lparr>cycles := 5\<rparr>\<rparr>)"
proof -
  have idle: "\<not> interrupt_due (program_at 0x0210 0x24)" "\<not> interrupt_due (program_at 0x0220 0x24)"
    by (simp_all add: interrupt_due_def program_at_def ram_machine_def)
  have pcs: "pc (cpu (program_at 0x0210 0x24)) = 0x0210" "pc (cpu (program_at 0x0220 0x24)) = 0x0220"
    by (simp_all add: program_at_def ram_machine_def cpu_at_def)
  have "cpu_step (program_at 0x0210 0x24) =
     (5, (program_at 0x0210 0x24)\<lparr>cpu := (cpu_at 0xA934 0x24)\<lparr>cycles := 5\<rparr>\<rparr>)"
    using jmp_indirect [OF idle(1), of "program_at 0x0210 0x24" "0x02FF" "program_at 0x0210 0x24"
        "0x34" "program_at 0x0210 0x24" "0xA9" "program_at 0x0210 0x24"]
    by (simp add: pcs jmp_reads) (simp add: program_at_def ram_machine_def cpu_at_def word_of_bytes_def)
  moreover have "cpu_step (program_at 0x0220 0x24) =
     (5, (program_at 0x0220 0x24)\<lparr>cpu := (cpu_at 0x5612 0x24)\<lparr>cycles := 5\<rparr>\<rparr>)"
    using jmp_indirect [OF idle(2), of "program_at 0x0220 0x24" "0x0300" "program_at 0x0220 0x24"
        "0x12" "program_at 0x0220 0x24" "0x56" "program_at 0x0220 0x24"]
    by (simp add: pcs jmp_reads) (simp add: program_at_def ram_machine_def cpu_at_def word_of_bytes_def)
  ultimately show ?thesis ..
qed

text \<open>
  C5. \<^verbatim>\<open>step()\<close> has a result for every state, every host and every opcode byte:
  \<open>cpu_step\<close> is a function without recursion and without a failure value.
  When it services an interrupt it returns exactly 7. When it executes an
  instruction it returns 2, 3, 5, 6 or 7, within the range 2 to 8. An opcode
  outside the six decoded ones costs 2 cycles and only advances the program
  counter by one and the cycle counter by two: no register, flag or latch
  changes and the opcode fetch is the only bus access.
\<close>

theorem step_total:
  "(interrupt_due m \<longrightarrow> fst (cpu_step m) = 7)
   \<and> (\<not> interrupt_due m \<longrightarrow>
        fst (cpu_step m) \<in> {2, 3, 5, 6, 7} \<and> 2 \<le> fst (cpu_step m) \<and> fst (cpu_step m) \<le> 8)
   \<and> (\<not> interrupt_due m \<and> read6502 m (pc (cpu m)) = (opcode, m1) \<and> opcode \<notin> decoded_opcodes \<longrightarrow>
        cpu_step m =
          (2, m1\<lparr>cpu := (cpu m)\<lparr>pc := pc (cpu m) + 1, cycles := cycles (cpu m) + 2\<rparr>\<rparr>))"
proof (intro conjI impI)
  assume "interrupt_due m"
  then show "fst (cpu_step m) = 7"
    by (rule step_interrupt_cycles)
next
  assume idle: "\<not> interrupt_due m"
  then show "fst (cpu_step m) \<in> {2, 3, 5, 6, 7}"
    by (simp add: step_instruction_cycles Let_def)
  from idle show "2 \<le> fst (cpu_step m)"
    by (simp add: step_instruction_cycles Let_def)
  from idle show "fst (cpu_step m) \<le> 8"
    by (simp add: step_instruction_cycles Let_def)
next
  assume "\<not> interrupt_due m \<and> read6502 m (pc (cpu m)) = (opcode, m1) \<and> opcode \<notin> decoded_opcodes"
  then show "cpu_step m =
      (2, m1\<lparr>cpu := (cpu m)\<lparr>pc := pc (cpu m) + 1, cycles := cycles (cpu m) + 2\<rparr>\<rparr>)"
    by (simp add: step_instruction execute_undecoded add_cycles_def)
qed

theorem step_total_witness:
  "fst (cpu_step nmi_example) = 7
   \<and> 2 \<le> fst (cpu_step (program_at 0x0260 0x24))
   \<and> fst (cpu_step (program_at 0x0260 0x24)) \<le> 8
   \<and> cpu_step (program_at 0x0250 0x24)
       = (2, (program_at 0x0250 0x24)\<lparr>cpu := (cpu_at 0x0251 0x24)\<lparr>cycles := 2\<rparr>\<rparr>)"
proof -
  have due: "interrupt_due nmi_example"
    by (simp add: interrupt_due_def nmi_example_def log_machine_def)
  have undecoded: "read6502 (program_at 0x0250 0x24) (pc (cpu (program_at 0x0250 0x24)))
      = (0x02, program_at 0x0250 0x24)" "0x02 \<notin> decoded_opcodes"
    by (simp_all add: program_reads program_cpu cpu_at_def program_ram_def decoded_opcodes_def)
  from step_total [of nmi_example] due have "fst (cpu_step nmi_example) = 7"
    by simp
  moreover from step_total [of "program_at 0x0260 0x24"] program_idle
  have "2 \<le> fst (cpu_step (program_at 0x0260 0x24))"
    and "fst (cpu_step (program_at 0x0260 0x24)) \<le> 8"
    by simp_all
  moreover from step_total [of "program_at 0x0250 0x24" "0x02" "program_at 0x0250 0x24"]
    program_idle undecoded
  have "cpu_step (program_at 0x0250 0x24)
      = (2, (program_at 0x0250 0x24)\<lparr>cpu := (cpu_at 0x0251 0x24)\<lparr>cycles := 2\<rparr>\<rparr>)"
    by (simp add: program_cpu cpu_at_def)
  ultimately show ?thesis by simp
qed

text \<open>
  C6. In the simplified core \<^verbatim>\<open>set_state(s)\<close> followed by \<^verbatim>\<open>get_state()\<close> returns
  exactly \<open>s\<close>, for every \<open>s\<close>, and the register file after \<^verbatim>\<open>set_state(s)\<close> is \<open>s\<close>.
  In the wrapper the six registers come back unchanged and the cycle counter
  comes back reduced modulo \<open>2 ^ 32\<close>, so the snapshot comes back exactly if and
  only if its cycle counter is below \<open>2 ^ 32\<close>.
\<close>

theorem snapshot_roundtrip:
  "cpu_get_state (cpu_set_state m (Some s)) (Some t) = Some s
   \<and> cpu (cpu_set_state m (Some s)) = s
   \<and> cpu_get_state_w (cpu_set_state_w mw (Some s)) (Some t) =
        Some (s\<lparr>cycles := take_bit 32 (cycles s)\<rparr>)
   \<and> (cpu_get_state_w (cpu_set_state_w mw (Some s)) (Some t) = Some s
        \<longleftrightarrow> cycles s < 0x100000000)"
proof -
  have "cpu (cpu_set_state m (Some s)) = s"
    by (simp add: cpu_set_state_def)
  moreover have "Some (s\<lparr>cycles := take_bit 32 (cycles s)\<rparr>) = Some s
      \<longleftrightarrow> cycles s < 0x100000000"
    by (cases s) (simp add: take_bit_32_self_iff)
  ultimately show ?thesis
    by (simp only: snapshot_roundtrip_old snapshot_roundtrip_w simp_thms)
qed

text \<open>A snapshot with \<open>cycles = 2 ^ 32\<close> does not survive the wrapper's round trip.\<close>

theorem snapshot_roundtrip_counterexample:
  "cpu_get_state_w (cpu_set_state_w reset_example_w (Some long_session)) (Some blank_cpu)
     \<noteq> Some long_session"
  by (simp add: snapshot_roundtrip_w long_session_def)

theorem snapshot_roundtrip_witness:
  "cpu_get_state (cpu_set_state reset_example (Some all_ones)) (Some blank_cpu) = Some all_ones
   \<and> cpu_get_state_w (cpu_set_state_w reset_example_w (Some all_ones)) (Some blank_cpu)
       = Some all_ones"
  using snapshot_roundtrip [of reset_example all_ones blank_cpu reset_example_w]
  by (simp add: all_ones_def)

text \<open>
  C7. The simplified core has one load operation, LDA immediate (opcode 0xA9):
  no other step changes A, X or Y. When \<^verbatim>\<open>step()\<close> executes it and the operand
  byte read at \<open>pc + 1\<close> is \<open>v\<close>, the step returns 2, the accumulator is \<open>v\<close>, the
  program counter has advanced by 2, the Zero flag is set if and only if
  \<open>v = 0\<close>, the Negative flag is set if and only if bit 7 of \<open>v\<close> is 1, every other
  bit of the status register is unchanged, and so are the stack pointer, X and
  Y. In particular, with \<open>pc = 0x0200\<close> and the bytes 0xA9 0x42 there, the step
  returns 2 and leaves \<open>a = 0x42\<close>, \<open>pc = 0x0202\<close>, Z clear and N clear.
\<close>

theorem load_flags:
  "(\<not> interrupt_due m \<and> read6502 m (pc (cpu m)) = (0xA9, m1)
      \<and> read6502 m1 (pc (cpu m) + 1) = (v, m2) \<longrightarrow>
       fst (cpu_step m) = 2
     \<and> a (cpu (snd (cpu_step m))) = v
     \<and> pc (cpu (snd (cpu_step m))) = pc (cpu m) + 2
     \<and> (status (cpu (snd (cpu_step m))) AND FLAG_ZERO \<noteq> 0 \<longleftrightarrow> v = 0)
     \<and> (status (cpu (snd (cpu_step m))) AND FLAG_SIGN \<noteq> 0 \<longleftrightarrow> bit v 7)
     \<and> status (cpu (snd (cpu_step m))) AND NOT (FLAG_ZERO OR FLAG_SIGN)
         = status (cpu m) AND NOT (FLAG_ZERO OR FLAG_SIGN)
     \<and> sp (cpu (snd (cpu_step m))) = sp (cpu m)
     \<and> x (cpu (snd (cpu_step m))) = x (cpu m)
     \<and> y (cpu (snd (cpu_step m))) = y (cpu m)
     \<and> host (snd (cpu_step m)) = host m2
     \<and> (pc (cpu m) = 0x0200 \<and> v = 0x42 \<longrightarrow>
          a (cpu (snd (cpu_step m))) = 0x42 \<and> pc (cpu (snd (cpu_step m))) = 0x0202
          \<and> status (cpu (snd (cpu_step m))) AND FLAG_ZERO = 0
          \<and> status (cpu (snd (cpu_step m))) AND FLAG_SIGN = 0))
   \<and> (interrupt_due m \<or> fst (read6502 m (pc (cpu m))) \<noteq> 0xA9 \<longrightarrow>
       a (cpu (snd (cpu_step m))) = a (cpu m)
     \<and> x (cpu (snd (cpu_step m))) = x (cpu m)
     \<and> y (cpu (snd (cpu_step m))) = y (cpu m))"
  using step_lda [of m m1 v m2] step_registers [of m] by blast

theorem load_flags_witness:
  "fst (cpu_step (program_at 0x0200 0x24)) = 2
   \<and> a (cpu (snd (cpu_step (program_at 0x0200 0x24)))) = 0x42
   \<and> pc (cpu (snd (cpu_step (program_at 0x0200 0x24)))) = 0x0202
   \<and> status (cpu (snd (cpu_step (program_at 0x0200 0x24)))) AND FLAG_ZERO = 0
   \<and> status (cpu (snd (cpu_step (program_at 0x0200 0x24)))) AND FLAG_SIGN = 0
   \<and> status (cpu (snd (cpu_step (program_at 0x02B0 0x24)))) AND FLAG_ZERO \<noteq> 0
   \<and> status (cpu (snd (cpu_step (program_at 0x02C0 0x24)))) AND FLAG_SIGN \<noteq> 0
   \<and> a (cpu (snd (cpu_step (program_at 0x0290 0x24)))) = 0"
proof -
  have "\<not> interrupt_due (program_at 0x0200 0x24)
      \<and> read6502 (program_at 0x0200 0x24) (pc (cpu (program_at 0x0200 0x24)))
          = (0xA9, program_at 0x0200 0x24)
      \<and> read6502 (program_at 0x0200 0x24) (pc (cpu (program_at 0x0200 0x24)) + 1)
          = (0x42, program_at 0x0200 0x24)"
    by (simp add: program_idle program_reads program_cpu cpu_at_def program_ram_def)
  with load_flags [of "program_at 0x0200 0x24" "program_at 0x0200 0x24" "0x42"
      "program_at 0x0200 0x24"]
  have first: "fst (cpu_step (program_at 0x0200 0x24)) = 2
      \<and> a (cpu (snd (cpu_step (program_at 0x0200 0x24)))) = 0x42
      \<and> pc (cpu (snd (cpu_step (program_at 0x0200 0x24)))) = 0x0202
      \<and> status (cpu (snd (cpu_step (program_at 0x0200 0x24)))) AND FLAG_ZERO = 0
      \<and> status (cpu (snd (cpu_step (program_at 0x0200 0x24)))) AND FLAG_SIGN = 0"
    by (simp add: program_cpu cpu_at_def)
  have "\<not> interrupt_due (program_at 0x02B0 0x24)
      \<and> read6502 (program_at 0x02B0 0x24) (pc (cpu (program_at 0x02B0 0x24)))
          = (0xA9, program_at 0x02B0 0x24)
      \<and> read6502 (program_at 0x02B0 0x24) (pc (cpu (program_at 0x02B0 0x24)) + 1)
          = (0x00, program_at 0x02B0 0x24)"
    by (simp add: program_idle program_reads program_cpu cpu_at_def program_ram_def)
  with load_flags [of "program_at 0x02B0 0x24" "program_at 0x02B0 0x24" "0x00"
      "program_at 0x02B0 0x24"]
  have second: "status (cpu (snd (cpu_step (program_at 0x02B0 0x24)))) AND FLAG_ZERO \<noteq> 0"
    by simp
  have "\<not> interrupt_due (program_at 0x02C0 0x24)
      \<and> read6502 (program_at 0x02C0 0x24) (pc (cpu (program_at 0x02C0 0x24)))
          = (0xA9, program_at 0x02C0 0x24)
      \<and> read6502 (program_at 0x02C0 0x24) (pc (cpu (program_at 0x02C0 0x24)) + 1)
          = (0x80, program_at 0x02C0 0x24)"
    by (simp add: program_idle program_reads program_cpu cpu_at_def program_ram_def)
  moreover have "bit (0x80 :: u8) 7"
    by simp
  ultimately have third: "status (cpu (snd (cpu_step (program_at 0x02C0 0x24)))) AND FLAG_SIGN \<noteq> 0"
    using load_flags [of "program_at 0x02C0 0x24" "program_at 0x02C0 0x24" "0x80"
      "program_at 0x02C0 0x24"]
    by simp
  have "fst (read6502 (program_at 0x0290 0x24) (pc (cpu (program_at 0x0290 0x24)))) \<noteq> 0xA9"
    by (simp add: program_reads program_cpu cpu_at_def program_ram_def)
  with load_flags [of "program_at 0x0290 0x24"]
  have fourth: "a (cpu (snd (cpu_step (program_at 0x0290 0x24)))) = 0"
    by (simp add: program_cpu cpu_at_def)
  from first second third fourth show ?thesis
    by simp
qed

text \<open>
  C8. When \<^verbatim>\<open>step()\<close> executes an instruction it returns 2 for LDA immediate
  (0xA9), 7 for BRK (0x00), 6 for RTI (0x40), 3 for JMP absolute (0x4C) and 5 for
  JMP indirect (0x6C). The opcodes of LDA absolute (0xAD) and LDA absolute,X
  (0xBD) are not decoded: they cost the default 2 cycles, whatever X and the
  operand are, so with or without a page crossing.
\<close>

theorem cycle_costs:
  assumes "\<not> interrupt_due m" and "fst (read6502 m (pc (cpu m))) = opcode"
  shows "(opcode = 0xA9 \<longrightarrow> fst (cpu_step m) = 2)
     \<and> (opcode = 0x00 \<longrightarrow> fst (cpu_step m) = 7)
     \<and> (opcode = 0x40 \<longrightarrow> fst (cpu_step m) = 6)
     \<and> (opcode = 0x4C \<longrightarrow> fst (cpu_step m) = 3)
     \<and> (opcode = 0x6C \<longrightarrow> fst (cpu_step m) = 5)
     \<and> (opcode = 0xAD \<longrightarrow> fst (cpu_step m) = 2)
     \<and> (opcode = 0xBD \<longrightarrow> fst (cpu_step m) = 2)"
  using assms by (auto simp add: step_instruction_cycles Let_def)

text \<open>
  \<^verbatim>\<open>LDA $0300\<close> does not cost 4 cycles, and \<^verbatim>\<open>LDA $0300,X\<close> costs neither 4 nor 5.
\<close>

theorem cycle_costs_counterexample:
  "fst (cpu_step (program_at 0x0230 0x24)) \<noteq> 4
   \<and> fst (cpu_step (program_at 0x0240 0x24)) \<noteq> 4
   \<and> fst (cpu_step (program_at 0x0240 0x24)) \<noteq> 5"
  by (simp add: program_costs program_ram_def)

theorem cycle_costs_witness:
  "fst (cpu_step (program_at 0x0200 0x24)) = 2
   \<and> fst (cpu_step (program_at 0x0270 0x24)) = 7
   \<and> fst (cpu_step (program_at 0x0260 0x24)) = 6
   \<and> fst (cpu_step (program_at 0x0280 0x24)) = 3
   \<and> fst (cpu_step (program_at 0x0210 0x24)) = 5
   \<and> fst (cpu_step (program_at 0x0230 0x24)) = 2
   \<and> fst (cpu_step (program_at 0x0240 0x24)) = 2"
  using cycle_costs [OF program_idle [of "0x0200" "0x24"] refl]
    cycle_costs [OF program_idle [of "0x0270" "0x24"] refl]
    cycle_costs [OF program_idle [of "0x0260" "0x24"] refl]
    cycle_costs [OF program_idle [of "0x0280" "0x24"] refl]
    cycle_costs [OF program_idle [of "0x0210" "0x24"] refl]
    cycle_costs [OF program_idle [of "0x0230" "0x24"] refl]
    cycle_costs [OF program_idle [of "0x0240" "0x24"] refl]
  by (simp add: program_reads program_cpu cpu_at_def program_ram_def)

text \<open>
  C9. \<^verbatim>\<open>step()\<close> never forces bit 5 of the status register. Every step other
  than an executed RTI (an interrupt service, BRK, JMP, LDA immediate, NOP, an
  undecoded opcode) leaves bit 5 as it was, so it reads 1 afterwards exactly
  when it read 1 before. An executed RTI loads the status register with the
  byte it pulls from \<open>0x0100 + (sp + 1)\<close>, unchanged, so bit 5 afterwards is bit 5
  of that byte.
\<close>

theorem constant_bit:
  "(interrupt_due m \<or> fst (read6502 m (pc (cpu m))) \<noteq> 0x40 \<longrightarrow>
      status (cpu (snd (cpu_step m))) AND FLAG_CONSTANT = status (cpu m) AND FLAG_CONSTANT)
   \<and> (\<not> interrupt_due m \<and> read6502 m (pc (cpu m)) = (0x40, m1)
        \<and> read6502 m1 (0x0100 + ucast (sp (cpu m) + 1)) = (p, m2) \<longrightarrow>
      status (cpu (snd (cpu_step m))) = p)"
proof (intro conjI impI)
  assume "interrupt_due m \<or> fst (read6502 m (pc (cpu m))) \<noteq> 0x40"
  then consider "nmi_pending m \<noteq> 0"
    | "nmi_pending m = 0" "irq_pending m \<noteq> 0" "status (cpu m) AND FLAG_INTERRUPT = 0"
    | "\<not> interrupt_due m" "fst (read6502 m (pc (cpu m))) \<noteq> 0x40"
    by (auto simp add: interrupt_due_def)
  then show "status (cpu (snd (cpu_step m))) AND FLAG_CONSTANT = status (cpu m) AND FLAG_CONSTANT"
  proof cases
    case 1
    then show ?thesis
      by (simp add: step_nmi add_cycles_def constant_bit_or_and)
  next
    case 2
    then show ?thesis
      by (simp add: step_irq add_cycles_def constant_bit_or_and)
  next
    case 3
    then show ?thesis
      by (simp add: step_instruction Let_def add_cycles_def execute_keeps_constant)
  qed
next
  assume "\<not> interrupt_due m \<and> read6502 m (pc (cpu m)) = (0x40, m1)
        \<and> read6502 m1 (0x0100 + ucast (sp (cpu m) + 1)) = (p, m2)"
  then show "status (cpu (snd (cpu_step m))) = p"
    by (simp add: step_instruction Let_def add_cycles_def
        execute_rti [where ?m1.0 = "m2\<lparr>cpu := (cpu m)\<lparr>pc := pc (cpu m) + 1\<rparr>\<rparr>"])
qed

text \<open>
  RTI from a state with bit 5 set, pulling the byte 0x00, leaves bit 5 clear;
  and LDA from the status register 0x00 (stored by \<^verbatim>\<open>set_state\<close>) leaves it clear.
\<close>

theorem constant_bit_counterexample:
  "status (cpu (program_at 0x0260 0x24)) AND FLAG_CONSTANT \<noteq> 0
   \<and> status (cpu (snd (cpu_step (program_at 0x0260 0x24)))) AND FLAG_CONSTANT = 0
   \<and> status (cpu (snd (cpu_step (program_at 0x02A0 0x00)))) AND FLAG_CONSTANT = 0"
  by (simp add: step_instruction program_idle program_reads program_cpu cpu_at_def program_ram_def
      execute_def pull6502_def lda_status_def Let_def add_cycles_def
      FLAG_CONSTANT_def FLAG_ZERO_def FLAG_SIGN_def)

theorem constant_bit_witness:
  "status (cpu (snd (cpu_step (program_at 0x0200 0x24)))) AND FLAG_CONSTANT = FLAG_CONSTANT
   \<and> status (cpu (snd (cpu_step nmi_example))) AND FLAG_CONSTANT = FLAG_CONSTANT
   \<and> status (cpu (snd (cpu_step after_nmi))) = 0x20"
proof -
  have lda: "fst (read6502 (program_at 0x0200 0x24) (pc (cpu (program_at 0x0200 0x24)))) \<noteq> 0x40"
    by (simp add: program_reads program_cpu cpu_at_def program_ram_def)
  have due: "interrupt_due nmi_example"
    by (simp add: interrupt_due_def nmi_example_def log_machine_def)
  have idle: "\<not> interrupt_due after_nmi"
    by (simp add: interrupt_due_def after_nmi_def ram_machine_def FLAG_INTERRUPT_def)
  have rti: "read6502 after_nmi (pc (cpu after_nmi)) = (0x40, after_nmi)"
      "read6502 after_nmi (0x0100 + ucast (sp (cpu after_nmi) + 1)) = (0x20, after_nmi)"
    by (simp_all add: after_nmi_def ram_defs program_ram_def)
  from constant_bit [of "program_at 0x0200 0x24"] lda
  have "status (cpu (snd (cpu_step (program_at 0x0200 0x24)))) AND FLAG_CONSTANT = FLAG_CONSTANT"
    by (simp add: program_cpu cpu_at_def FLAG_CONSTANT_def)
  moreover from constant_bit [of nmi_example] due
  have "status (cpu (snd (cpu_step nmi_example))) AND FLAG_CONSTANT = FLAG_CONSTANT"
    by (simp add: nmi_example_def log_machine_def cpu_at_def FLAG_CONSTANT_def)
  moreover from constant_bit [of after_nmi after_nmi "0x20" after_nmi] idle rti
  have "status (cpu (snd (cpu_step after_nmi))) = 0x20"
    by simp
  ultimately show ?thesis by simp
qed

text \<open>
  C10. \<^verbatim>\<open>trigger_irq\<close>, \<^verbatim>\<open>trigger_nmi\<close> and \<^verbatim>\<open>clear_irq\<close> change their own latch and
  nothing else: the register file (whichever core holds it), the other latch,
  the callbacks and the host's world are what they were, for every host, so
  no callback has run. A trigger sets its latch to 1 and a second call changes
  nothing more.
\<close>

theorem latch_operations_frame:
  fixes m :: "('r, 'b) machine"
  shows
  "cpu_trigger_irq m = m\<lparr>irq_pending := 1\<rparr>
   \<and> cpu_trigger_nmi m = m\<lparr>nmi_pending := 1\<rparr>
   \<and> cpu_clear_irq m = m\<lparr>irq_pending := 0\<rparr>
   \<and> cpu (cpu_trigger_irq m) = cpu m \<and> nmi_pending (cpu_trigger_irq m) = nmi_pending m
   \<and> host (cpu_trigger_irq m) = host m
   \<and> memory_read (cpu_trigger_irq m) = memory_read m
   \<and> memory_write (cpu_trigger_irq m) = memory_write m
   \<and> cpu (cpu_trigger_nmi m) = cpu m \<and> irq_pending (cpu_trigger_nmi m) = irq_pending m
   \<and> host (cpu_trigger_nmi m) = host m
   \<and> memory_read (cpu_trigger_nmi m) = memory_read m
   \<and> memory_write (cpu_trigger_nmi m) = memory_write m
   \<and> cpu (cpu_clear_irq m) = cpu m \<and> nmi_pending (cpu_clear_irq m) = nmi_pending m
   \<and> host (cpu_clear_irq m) = host m
   \<and> memory_read (cpu_clear_irq m) = memory_read m
   \<and> memory_write (cpu_clear_irq m) = memory_write m
   \<and> cpu_is_irq_pending (cpu_trigger_irq m) = 1
   \<and> cpu_is_nmi_pending (cpu_trigger_nmi m) = 1
   \<and> cpu_is_irq_pending (cpu_clear_irq m) = 0
   \<and> cpu_trigger_irq (cpu_trigger_irq m) = cpu_trigger_irq m
   \<and> cpu_trigger_nmi (cpu_trigger_nmi m) = cpu_trigger_nmi m"
  by (simp add: cpu_trigger_irq_def cpu_trigger_nmi_def cpu_clear_irq_def
      cpu_is_irq_pending_def cpu_is_nmi_pending_def)

text \<open>
  In front of the recording host the three calls leave the record of bus
  accesses empty.
\<close>

theorem latch_operations_frame_witness:
  "host (cpu_trigger_irq (log_machine blank_cpu 0 0)) = []
   \<and> host (cpu_trigger_nmi (log_machine blank_cpu 0 0)) = []
   \<and> host (cpu_clear_irq (log_machine blank_cpu 1 0)) = []
   \<and> cpu_is_irq_pending (cpu_trigger_irq (cpu_trigger_irq (log_machine blank_cpu 0 0))) = 1
   \<and> cpu_is_nmi_pending (cpu_trigger_irq (log_machine blank_cpu 0 0)) = 0
   \<and> cpu (cpu_trigger_nmi (log_machine blank_cpu 0 0)) = blank_cpu"
  using latch_operations_frame [of "log_machine blank_cpu 0 0"]
    latch_operations_frame [of "log_machine blank_cpu 1 0"]
    latch_operations_frame [of "cpu_trigger_irq (log_machine blank_cpu 0 0)"]
  by (simp add: log_machine_def cpu_is_nmi_pending_def)

end
